theory Spec2Isabelle
  imports Main
begin

section \<open>The motion models of \<^verbatim>\<open>openslides/motion/models.py\<close>\<close>

text \<open>
  The module defines Django models. An object in memory is a record; the database is a
  record of tables, each a list of rows in the order the rows were inserted. A method that
  changes \<^verbatim>\<open>self\<close> or the database takes both and returns them updated, next to its
  result; a raised exception is a result \<open>Inl e\<close>.

  A content value (title, text, reason) is a \<open>string option\<close>: a string, or \<open>None\<close> for
  Python's \<^verbatim>\<open>None\<close>. An attribute of the instance that may be absent
  (\<^verbatim>\<open>_title\<close>, \<^verbatim>\<open>_text\<close>, \<^verbatim>\<open>_reason\<close>, \<^verbatim>\<open>_new_version\<close>,
  \<^verbatim>\<open>_version\<close>) is an option as well: \<open>None\<close> when the attribute does not exist, so
  that reading it raises \<^verbatim>\<open>AttributeError\<close>. Isabelle names cannot start with an underscore:
  \<^verbatim>\<open>_title\<close> is \<open>priv_title\<close>, and so on.
\<close>

type_synonym person = string
type_synonym val = "string option"

datatype error =
    WorkflowError
  | ValueError
  | IndexError
  | AttributeError
  | AssertionError
  | IntegrityError
  | DoesNotExist

subsection \<open>The workflow\<close>

text \<open>
  Modelled from the spec: the module \<^verbatim>\<open>openslides/motion/workflow.py\<close> (\<^verbatim>\<open>State\<close>,
  \<^verbatim>\<open>get_state\<close>, \<^verbatim>\<open>WorkflowError\<close>) is not among the sources. A state has an id, a
  display name, the capability flags support and poll, and the ids of its allowed next
  states. The registry \<^verbatim>\<open>get_state(id)\<close> is a parameter of every method that uses it: a
  function from an id or token to a state, \<open>None\<close> where \<^verbatim>\<open>get_state\<close> raises
  \<^verbatim>\<open>WorkflowError\<close>. Membership of a state in \<^verbatim>\<open>next_states\<close> is membership of its id.
\<close>

record State =
  st_id :: string
  st_name :: string
  st_support :: bool
  st_poll :: bool
  st_next_states :: "string list"

type_synonym workflow = "string \<Rightarrow> State option"

subsection \<open>Objects and tables\<close>

text \<open>
  \<^verbatim>\<open>MotionVersion\<close>: \<open>pk\<close> is \<open>None\<close> until the object is saved, \<open>motion\<close> is the
  \<^verbatim>\<open>motion_id\<close> of the foreign key. \<^verbatim>\<open>creation_time\<close> is wall-clock time and is left out.
\<close>

record MotionVersion =
  pk :: "nat option"
  motion :: "nat option"
  title :: val
  "text" :: val
  reason :: val
  rejected :: bool
  "identifier" :: string
  "note" :: val

record MotionSupporter =
  supporter_pk :: "nat option"
  supporter_person :: person
  supporter_motion :: "nat option"

record MotionPoll =
  poll_pk :: "nat option"
  poll_motion :: "nat option"
  poll_number :: nat

record MotionOption =
  option_pk :: "nat option"
  option_poll :: "nat option"

text \<open>
  \<^verbatim>\<open>Motion\<close>: the id, the state id and the attributes that the methods below create and
  delete on the instance. The columns \<^verbatim>\<open>identifier\<close>, \<^verbatim>\<open>category\<close>, \<^verbatim>\<open>master\<close> and
  \<^verbatim>\<open>permitted_version\<close> are neither read nor written by these methods and are left out.
\<close>

record Motion =
  Motion_id :: "nat option"
  state_id :: string
  priv_title :: "val option"
  priv_text :: "val option"
  priv_reason :: "val option"
  priv_new_version :: "MotionVersion option"
  priv_version :: "MotionVersion option"

record database =
  Motion_objects :: "(nat \<times> string) list"
  MotionVersion_objects :: "MotionVersion list"
  MotionSupporter_objects :: "MotionSupporter list"
  MotionPoll_objects :: "MotionPoll list"
  MotionOption_objects :: "MotionOption list"

definition empty_database :: database where
  "empty_database = \<lparr>Motion_objects = [], MotionVersion_objects = [],
     MotionSupporter_objects = [], MotionPoll_objects = [], MotionOption_objects = []\<rparr>"

text \<open>\<^verbatim>\<open>Motion()\<close>: a new instance; \<^verbatim>\<open>state_id\<close> is the empty string of a \<^verbatim>\<open>CharField\<close>.\<close>

definition Motion_init :: Motion where
  "Motion_init = \<lparr>Motion_id = None, state_id = [], priv_title = None, priv_text = None,
     priv_reason = None, priv_new_version = None, priv_version = None\<rparr>"

text \<open>
  \<^verbatim>\<open>MotionVersion(motion=self)\<close>: the field defaults of Django; a \<^verbatim>\<open>CharField\<close> or
  \<^verbatim>\<open>TextField\<close> without \<^verbatim>\<open>null=True\<close> starts as the empty string, one with it as
  \<^verbatim>\<open>None\<close>.
\<close>

definition MotionVersion_init :: "nat option \<Rightarrow> MotionVersion" where
  "MotionVersion_init m = \<lparr>pk = None, motion = m, title = Some [], text = Some [],
     reason = None, rejected = False, identifier = [], note = None\<rparr>"

subsection \<open>The database operations the methods use\<close>

text \<open>The key of a new row is larger than every key of the table.\<close>

definition fresh_pk :: "nat list \<Rightarrow> nat" where
  "fresh_pk ks = Suc (fold max ks 0)"

text \<open>
  \<^verbatim>\<open>super(Motion, self).save()\<close>: insert the row and set the id when the instance has none,
  else update the row of this id (insert it when there is none).
\<close>

definition Model_save :: "Motion \<Rightarrow> database \<Rightarrow> Motion \<times> database" where
  "Model_save m db =
     (case Motion_id m of
        None \<Rightarrow>
          (let k = fresh_pk (map fst (Motion_objects db))
           in (m\<lparr>Motion_id := Some k\<rparr>,
               db\<lparr>Motion_objects := Motion_objects db @ [(k, state_id m)]\<rparr>))
      | Some k \<Rightarrow>
          (if k \<in> fst ` set (Motion_objects db)
           then (m, db\<lparr>Motion_objects :=
                   map (\<lambda>r. if fst r = k then (k, state_id m) else r) (Motion_objects db)\<rparr>)
           else (m, db\<lparr>Motion_objects := Motion_objects db @ [(k, state_id m)]\<rparr>)))"

text \<open>
  \<^verbatim>\<open>version.save()\<close>: the columns \<^verbatim>\<open>motion_id\<close>, \<^verbatim>\<open>title\<close> and \<^verbatim>\<open>text\<close> are
  \<^verbatim>\<open>NOT NULL\<close>. An object without a key is inserted and gets its key; one with a key
  replaces the row of that key.
\<close>

definition MotionVersion_save ::
  "MotionVersion \<Rightarrow> database \<Rightarrow> (error + MotionVersion) \<times> database" where
  "MotionVersion_save v db =
     (if motion v = None \<or> title v = None \<or> text v = None then (Inl IntegrityError, db)
      else case pk v of
        None \<Rightarrow>
          (let v' = v\<lparr>pk := Some (fresh_pk (List.map_filter pk (MotionVersion_objects db)))\<rparr>
           in (Inr v', db\<lparr>MotionVersion_objects := MotionVersion_objects db @ [v']\<rparr>))
      | Some k \<Rightarrow>
          (if Some k \<in> pk ` set (MotionVersion_objects db)
           then (Inr v, db\<lparr>MotionVersion_objects :=
                   map (\<lambda>r. if pk r = Some k then v else r) (MotionVersion_objects db)\<rparr>)
           else (Inr v, db\<lparr>MotionVersion_objects := MotionVersion_objects db @ [v]\<rparr>)))"

text \<open>
  The related managers \<^verbatim>\<open>self.versions\<close>, \<^verbatim>\<open>self.polls\<close> and \<^verbatim>\<open>self.supporter\<close>: the
  rows whose foreign key is the id of this motion, in table order; none for an instance
  that has no id.
\<close>

definition versions :: "database \<Rightarrow> Motion \<Rightarrow> MotionVersion list" where
  "versions db m =
     (case Motion_id m of None \<Rightarrow> []
      | Some k \<Rightarrow> filter (\<lambda>r. motion r = Some k) (MotionVersion_objects db))"

definition polls :: "database \<Rightarrow> Motion \<Rightarrow> MotionPoll list" where
  "polls db m =
     (case Motion_id m of None \<Rightarrow> []
      | Some k \<Rightarrow> filter (\<lambda>r. poll_motion r = Some k) (MotionPoll_objects db))"

definition supporter :: "database \<Rightarrow> Motion \<Rightarrow> MotionSupporter list" where
  "supporter db m =
     (case Motion_id m of None \<Rightarrow> []
      | Some k \<Rightarrow> filter (\<lambda>r. supporter_motion r = Some k) (MotionSupporter_objects db))"

text \<open>\<^verbatim>\<open>order_by('id')\<close> sorts by the key; every row of a table has one.\<close>

definition pk_key :: "MotionVersion \<Rightarrow> nat" where
  "pk_key r = (case pk r of None \<Rightarrow> 0 | Some k \<Rightarrow> k)"

definition order_by_id :: "MotionVersion list \<Rightarrow> MotionVersion list" where
  "order_by_id rs = sort_key pk_key rs"

text \<open>
  \<^verbatim>\<open>queryset[k]\<close>: Django asserts that the index is not negative and raises
  \<^verbatim>\<open>IndexError\<close> when there is no row at position \<open>k\<close>, counted from 0.
\<close>

definition queryset_getitem :: "'a list \<Rightarrow> int \<Rightarrow> error + 'a" where
  "queryset_getitem qs k =
     (if k < 0 then Inl AssertionError
      else if nat k < length qs then Inr (qs ! nat k)
      else Inl IndexError)"

text \<open>\<^verbatim>\<open>aggregate(Max(...))\<close>: \<^verbatim>\<open>None\<close> over no rows.\<close>

definition aggregate_Max :: "nat list \<Rightarrow> nat option" where
  "aggregate_Max xs = (case xs of [] \<Rightarrow> None | x # ys \<Rightarrow> Some (fold max ys x))"

subsection \<open>Versions of a motion\<close>

text \<open>
  \<^verbatim>\<open>new_version\<close>: the object in \<^verbatim>\<open>_new_version\<close>; when the attribute is absent, a new
  \<^verbatim>\<open>MotionVersion(motion=self)\<close> is stored there first.
\<close>

definition new_version :: "Motion \<Rightarrow> MotionVersion \<times> Motion" where
  "new_version m =
     (case priv_new_version m of
        Some v \<Rightarrow> (v, m)
      | None \<Rightarrow>
          (let v = MotionVersion_init (Motion_id m)
           in (v, m\<lparr>priv_new_version := Some v\<rparr>)))"

text \<open>
  \<^verbatim>\<open>last_version\<close>: \<^verbatim>\<open>self.versions.order_by('id').reverse()[0]\<close>, and
  \<^verbatim>\<open>self.new_version\<close> when that raises \<^verbatim>\<open>IndexError\<close>.
\<close>

definition last_version :: "database \<Rightarrow> Motion \<Rightarrow> MotionVersion \<times> Motion" where
  "last_version db m =
     (case rev (order_by_id (versions db m)) of
        v # _ \<Rightarrow> (v, m)
      | [] \<Rightarrow> new_version m)"

definition get_version :: "database \<Rightarrow> Motion \<Rightarrow> MotionVersion \<times> Motion" where
  "get_version db m =
     (case priv_version m of
        Some v \<Rightarrow> (v, m)
      | None \<Rightarrow> last_version db m)"

text \<open>
  The argument of \<^verbatim>\<open>set_version\<close>: \<^verbatim>\<open>None\<close>, an \<^verbatim>\<open>int\<close>, a \<^verbatim>\<open>MotionVersion\<close>, or
  a value of any other type.
\<close>

datatype version_arg =
    VersionNone
  | VersionInt int
  | VersionObject MotionVersion
  | VersionOther

definition set_version :: "database \<Rightarrow> version_arg \<Rightarrow> Motion \<Rightarrow> (error + unit) \<times> Motion" where
  "set_version db version m =
     (case version of
        VersionNone \<Rightarrow> (Inr (), m\<lparr>priv_version := None\<rparr>)
      | VersionInt n \<Rightarrow>
          (case queryset_getitem (versions db m) n of
             Inl e \<Rightarrow> (Inl e, m)
           | Inr v \<Rightarrow> (Inr (), m\<lparr>priv_version := Some v\<rparr>))
      | VersionObject v \<Rightarrow> (Inr (), m\<lparr>priv_version := Some v\<rparr>)
      | VersionOther \<Rightarrow> (Inl ValueError, m))"

subsection \<open>Title, text and reason\<close>

definition get_title :: "database \<Rightarrow> Motion \<Rightarrow> val \<times> Motion" where
  "get_title db m =
     (case priv_title m of
        Some x \<Rightarrow> (x, m)
      | None \<Rightarrow> (case get_version db m of (v, m') \<Rightarrow> (title v, m')))"

definition set_title :: "val \<Rightarrow> Motion \<Rightarrow> Motion" where
  "set_title x m = m\<lparr>priv_title := Some x\<rparr>"

definition get_text :: "database \<Rightarrow> Motion \<Rightarrow> val \<times> Motion" where
  "get_text db m =
     (case priv_text m of
        Some x \<Rightarrow> (x, m)
      | None \<Rightarrow> (case get_version db m of (v, m') \<Rightarrow> (text v, m')))"

definition set_text :: "val \<Rightarrow> Motion \<Rightarrow> Motion" where
  "set_text x m = m\<lparr>priv_text := Some x\<rparr>"

definition get_reason :: "database \<Rightarrow> Motion \<Rightarrow> val \<times> Motion" where
  "get_reason db m =
     (case priv_reason m of
        Some x \<Rightarrow> (x, m)
      | None \<Rightarrow> (case get_version db m of (v, m') \<Rightarrow> (reason v, m')))"

definition set_reason :: "val \<Rightarrow> Motion \<Rightarrow> Motion" where
  "set_reason x m = m\<lparr>priv_reason := Some x\<rparr>"

text \<open>
  The names that \<^verbatim>\<open>save\<close> iterates over, and \<^verbatim>\<open>getattr\<close>, \<^verbatim>\<open>setattr\<close> and
  \<^verbatim>\<open>delattr\<close> at these names: \<open>getattr_Motion\<close> reads the property, \<open>getattr_priv\<close> the
  attribute with the underscore (\<open>None\<close> for \<^verbatim>\<open>AttributeError\<close>).
\<close>

datatype attr = Title | Text | Reason

fun getattr_Motion :: "database \<Rightarrow> Motion \<Rightarrow> attr \<Rightarrow> val \<times> Motion" where
  "getattr_Motion db m Title = get_title db m"
| "getattr_Motion db m Text = get_text db m"
| "getattr_Motion db m Reason = get_reason db m"

fun getattr_priv :: "Motion \<Rightarrow> attr \<Rightarrow> val option" where
  "getattr_priv m Title = priv_title m"
| "getattr_priv m Text = priv_text m"
| "getattr_priv m Reason = priv_reason m"

fun delattr_priv :: "Motion \<Rightarrow> attr \<Rightarrow> Motion" where
  "delattr_priv m Title = m\<lparr>priv_title := None\<rparr>"
| "delattr_priv m Text = m\<lparr>priv_text := None\<rparr>"
| "delattr_priv m Reason = m\<lparr>priv_reason := None\<rparr>"

fun getattr_version :: "MotionVersion \<Rightarrow> attr \<Rightarrow> val" where
  "getattr_version v Title = title v"
| "getattr_version v Text = text v"
| "getattr_version v Reason = reason v"

fun setattr_version :: "MotionVersion \<Rightarrow> attr \<Rightarrow> val \<Rightarrow> MotionVersion" where
  "setattr_version v Title x = v\<lparr>title := x\<rparr>"
| "setattr_version v Text x = v\<lparr>text := x\<rparr>"
| "setattr_version v Reason x = v\<lparr>reason := x\<rparr>"

subsection \<open>The state of a motion\<close>

definition get_state :: "workflow \<Rightarrow> Motion \<Rightarrow> State option" where
  "get_state registry m = registry (state_id m)"

text \<open>The argument of \<^verbatim>\<open>set_state\<close>: a \<^verbatim>\<open>State\<close> object, or a value that is looked up.\<close>

datatype state_arg = StateObject State | StateId string

definition set_state :: "workflow \<Rightarrow> state_arg \<Rightarrow> Motion \<Rightarrow> (error + unit) \<times> Motion" where
  "set_state registry arg m =
     (case (case arg of StateObject s \<Rightarrow> Some s | StateId i \<Rightarrow> registry i) of
        None \<Rightarrow> (Inl WorkflowError, m)
      | Some next_state \<Rightarrow>
          (case get_state registry m of
             None \<Rightarrow> (Inl AttributeError, m)
           | Some cur \<Rightarrow>
               (if st_id next_state \<in> set (st_next_states cur)
                then (Inr (), m\<lparr>state_id := st_id next_state\<rparr>)
                else (Inl WorkflowError, m))))"

definition reset_state :: "workflow \<Rightarrow> Motion \<Rightarrow> (error + unit) \<times> Motion" where
  "reset_state registry m =
     (case registry ''default'' of
        None \<Rightarrow> (Inl WorkflowError, m)
      | Some d \<Rightarrow> (Inr (), m\<lparr>state_id := st_id d\<rparr>))"

subsection \<open>Saving a motion\<close>

text \<open>
  The first loop of \<^verbatim>\<open>save\<close>: \<^verbatim>\<open>new_data\<close> is true at the first name where the property
  of the motion differs from the field of \<^verbatim>\<open>self.last_version\<close>, false when the loop ends
  without \<^verbatim>\<open>break\<close>. Both reads go through \<open>last_version\<close> and may create
  \<^verbatim>\<open>_new_version\<close>.
\<close>

fun save_new_data :: "database \<Rightarrow> attr list \<Rightarrow> Motion \<Rightarrow> bool \<times> Motion" where
  "save_new_data db [] m = (False, m)"
| "save_new_data db (a # as) m =
     (case getattr_Motion db m a of (x, m1) \<Rightarrow>
      (case last_version db m1 of (lv, m2) \<Rightarrow>
         (if x \<noteq> getattr_version lv a then (True, m2)
          else save_new_data db as m2)))"

text \<open>
  The second loop: a staged value is written to the version and the attribute deleted;
  at \<^verbatim>\<open>AttributeError\<close> the value of \<^verbatim>\<open>self.last_version\<close> is written.
\<close>

fun save_set_attrs ::
  "database \<Rightarrow> attr list \<Rightarrow> Motion \<Rightarrow> MotionVersion \<Rightarrow> MotionVersion \<times> Motion" where
  "save_set_attrs db [] m version = (version, m)"
| "save_set_attrs db (a # as) m version =
     (case getattr_priv m a of
        Some x \<Rightarrow> save_set_attrs db as (delattr_priv m a) (setattr_version version a x)
      | None \<Rightarrow>
          (case last_version db m of (lv, m') \<Rightarrow>
             save_set_attrs db as m' (setattr_version version a (getattr_version lv a))))"

text \<open>Lines 112 to 120: the second loop, then \<^verbatim>\<open>version.save()\<close>.\<close>

definition save_write ::
  "database \<Rightarrow> Motion \<Rightarrow> MotionVersion \<Rightarrow> (error + unit) \<times> Motion \<times> database" where
  "save_write db m version =
     (case save_set_attrs db [Title, Text, Reason] m version of (version', m') \<Rightarrow>
      (case MotionVersion_save version' db of
         (Inl e, db') \<Rightarrow> (Inl e, m', db')
       | (Inr _, db') \<Rightarrow> (Inr (), m', db')))"

text \<open>
  \<^verbatim>\<open>Motion.save\<close>. The second argument is the value of
  \<^verbatim>\<open>config['motion_create_new_version']\<close>.
\<close>

definition save ::
  "workflow \<Rightarrow> string \<Rightarrow> Motion \<Rightarrow> database \<Rightarrow> (error + unit) \<times> Motion \<times> database" where
  "save registry motion_create_new_version m db =
     (case (if state_id m = [] then reset_state registry m else (Inr (), m)) of
        (Inl e, m0) \<Rightarrow> (Inl e, m0, db)
      | (Inr _, m0) \<Rightarrow>
          (case Model_save m0 db of (m1, db1) \<Rightarrow>
           (case save_new_data db1 [Title, Text, Reason] m1 of (new_data, m2) \<Rightarrow>
            (let need_new_version = (motion_create_new_version = ''ALLWASY_CREATE_NEW_VERSION'')
             in if priv_new_version m2 \<noteq> None \<or> (new_data \<and> need_new_version) then
                  (case new_version m2 of (version, m3) \<Rightarrow>
                     save_write db1 (m3\<lparr>priv_new_version := None\<rparr>)
                       (version\<lparr>motion := Motion_id m3\<rparr>))
                else if new_data \<and> \<not> need_new_version then
                  (case last_version db1 m2 of (version, m3) \<Rightarrow> save_write db1 m3 version)
                else (Inr (), m2, db1)))))"

subsection \<open>Supporters and polls\<close>

definition is_supporter :: "database \<Rightarrow> Motion \<Rightarrow> person \<Rightarrow> bool" where
  "is_supporter db m p = (filter (\<lambda>r. supporter_person r = p) (supporter db m) \<noteq> [])"

text \<open>\<^verbatim>\<open>MotionSupporter(motion=self, person=person).save()\<close>; \<^verbatim>\<open>motion_id\<close> is \<^verbatim>\<open>NOT NULL\<close>.\<close>

definition MotionSupporter_save ::
  "nat option \<Rightarrow> person \<Rightarrow> database \<Rightarrow> (error + unit) \<times> database" where
  "MotionSupporter_save mid p db =
     (case mid of
        None \<Rightarrow> (Inl IntegrityError, db)
      | Some k \<Rightarrow>
          (Inr (), db\<lparr>MotionSupporter_objects := MotionSupporter_objects db @
             [\<lparr>supporter_pk = Some (fresh_pk (List.map_filter supporter_pk (MotionSupporter_objects db))),
               supporter_person = p, supporter_motion = Some k\<rparr>]\<rparr>))"

definition support ::
  "workflow \<Rightarrow> person \<Rightarrow> Motion \<Rightarrow> database \<Rightarrow> (error + unit) \<times> Motion \<times> database" where
  "support registry p m db =
     (case get_state registry m of
        None \<Rightarrow> (Inl AttributeError, m, db)
      | Some st \<Rightarrow>
          (if st_support st then
             (if \<not> is_supporter db m p then
                (case MotionSupporter_save (Motion_id m) p db of (r, db') \<Rightarrow> (r, m, db'))
              else (Inr (), m, db))
           else (Inl WorkflowError, m, db)))"

definition unsupport ::
  "workflow \<Rightarrow> person \<Rightarrow> Motion \<Rightarrow> database \<Rightarrow> (error + unit) \<times> Motion \<times> database" where
  "unsupport registry p m db =
     (case get_state registry m of
        None \<Rightarrow> (Inl AttributeError, m, db)
      | Some st \<Rightarrow>
          (if st_support st then
             (Inr (), m, db\<lparr>MotionSupporter_objects :=
                filter (\<lambda>r. \<not> (Motion_id m \<noteq> None \<and> supporter_motion r = Motion_id m \<and>
                                supporter_person r = p)) (MotionSupporter_objects db)\<rparr>)
           else (Inl WorkflowError, m, db)))"

text \<open>
  \<^verbatim>\<open>MotionPoll.objects.create(motion=self, poll_number=n)\<close>; \<^verbatim>\<open>motion_id\<close> is
  \<^verbatim>\<open>NOT NULL\<close> and the pair of motion and poll number is unique.
\<close>

definition MotionPoll_create ::
  "nat option \<Rightarrow> nat \<Rightarrow> database \<Rightarrow> (error + MotionPoll) \<times> database" where
  "MotionPoll_create mid n db =
     (case mid of
        None \<Rightarrow> (Inl IntegrityError, db)
      | Some k \<Rightarrow>
          (if \<exists>r \<in> set (MotionPoll_objects db). poll_motion r = Some k \<and> poll_number r = n
           then (Inl IntegrityError, db)
           else
             (let p = \<lparr>poll_pk = Some (fresh_pk (List.map_filter poll_pk (MotionPoll_objects db))),
                        poll_motion = Some k, poll_number = n\<rparr>
              in (Inr p, db\<lparr>MotionPoll_objects := MotionPoll_objects db @ [p]\<rparr>))))"

text \<open>\<^verbatim>\<open>MotionPoll.set_options\<close>: one option row for the poll.\<close>

definition set_options :: "MotionPoll \<Rightarrow> database \<Rightarrow> database" where
  "set_options p db =
     db\<lparr>MotionOption_objects := MotionOption_objects db @
        [\<lparr>option_pk = Some (fresh_pk (List.map_filter option_pk (MotionOption_objects db))),
          option_poll = poll_pk p\<rparr>]\<rparr>"

definition create_poll ::
  "workflow \<Rightarrow> Motion \<Rightarrow> database \<Rightarrow> (error + MotionPoll) \<times> Motion \<times> database" where
  "create_poll registry m db =
     (case get_state registry m of
        None \<Rightarrow> (Inl AttributeError, m, db)
      | Some st \<Rightarrow>
          (if st_poll st then
             (let poll_number =
                    (case aggregate_Max (map poll_number (polls db m)) of
                       None \<Rightarrow> 0
                     | Some n \<Rightarrow> (if n = 0 then 0 else n))
              in case MotionPoll_create (Motion_id m) (poll_number + 1) db of
                   (Inl e, db') \<Rightarrow> (Inl e, m, db')
                 | (Inr poll, db') \<Rightarrow> (Inr poll, m, set_options poll db'))
           else (Inl WorkflowError, m, db)))"

subsection \<open>The number of a version\<close>

text \<open>
  \<^verbatim>\<open>MotionVersion.version_number\<close>: the string \<^verbatim>\<open>'new'\<close> for an object without a key,
  else the number of rows of the same motion whose key is at most this one. Reading
  \<^verbatim>\<open>self.motion\<close> raises \<^verbatim>\<open>DoesNotExist\<close> when the foreign key is unset.
\<close>

definition version_number :: "database \<Rightarrow> MotionVersion \<Rightarrow> error + (string + nat)" where
  "version_number db v =
     (case pk v of
        None \<Rightarrow> Inr (Inl ''new'')
      | Some k \<Rightarrow>
          (case motion v of
             None \<Rightarrow> Inl DoesNotExist
           | Some mid \<Rightarrow>
               Inr (Inr (length
                 (filter (\<lambda>r. case pk r of None \<Rightarrow> False | Some j \<Rightarrow> j \<le> k)
                    (filter (\<lambda>r. motion r = Some mid) (MotionVersion_objects db)))))))"

subsection \<open>What holds of a table of versions\<close>

text \<open>
  Every row has a key, and the keys grow in the order of insertion. It holds of the empty
  table, and \<open>MotionVersion_save\<close> gives a new row a key above all others.
\<close>

definition version_keys_increasing :: "database \<Rightarrow> bool" where
  "version_keys_increasing db =
     ((\<forall>r \<in> set (MotionVersion_objects db). pk r \<noteq> None) \<and>
      sorted_wrt (\<lambda>a b. pk_key a < pk_key b) (MotionVersion_objects db))"

text \<open>
  The object in \<^verbatim>\<open>_new_version\<close>, when there is one, has not been saved: \<open>new_version\<close>
  creates it without a key and \<open>save\<close> deletes the attribute before it saves the object.
\<close>

definition new_version_unsaved :: "Motion \<Rightarrow> bool" where
  "new_version_unsaved m = (\<forall>v. priv_new_version m = Some v \<longrightarrow> pk v = None)"

text \<open>Every version row refers to a row of the table of motions (the foreign key).\<close>

definition version_motions_exist :: "database \<Rightarrow> bool" where
  "version_motions_exist db =
     (\<forall>r \<in> set (MotionVersion_objects db). \<exists>k \<in> fst ` set (Motion_objects db). motion r = Some k)"

subsection \<open>Example data\<close>

definition state_pub :: State where
  "state_pub = \<lparr>st_id = ''pub'', st_name = ''Published'', st_support = True, st_poll = False,
     st_next_states = [''per'']\<rparr>"

definition state_per :: State where
  "state_per = \<lparr>st_id = ''per'', st_name = ''Permitted'', st_support = False, st_poll = True,
     st_next_states = []\<rparr>"

definition example_registry :: workflow where
  "example_registry =
     map_of [(''default'', state_pub), (''pub'', state_pub), (''per'', state_per)]"

definition example_motion :: "string \<Rightarrow> Motion" where
  "example_motion s = Motion_init\<lparr>Motion_id := Some 1, state_id := s\<rparr>"

definition example_polls :: database where
  "example_polls = empty_database\<lparr>Motion_objects := [(1, ''per'')],
     MotionPoll_objects :=
       [\<lparr>poll_pk = Some 1, poll_motion = Some 1, poll_number = 1\<rparr>,
        \<lparr>poll_pk = Some 2, poll_motion = Some 1, poll_number = 2\<rparr>]\<rparr>"

definition example_supporters :: database where
  "example_supporters = empty_database\<lparr>Motion_objects := [(1, ''pub'')],
     MotionSupporter_objects :=
       [\<lparr>supporter_pk = Some 1, supporter_person = ''user:2'',
         supporter_motion = Some 1\<rparr>]\<rparr>"

definition example_two_versions :: database where
  "example_two_versions = empty_database\<lparr>Motion_objects := [(1, ''pub'')],
     MotionVersion_objects :=
       [(MotionVersion_init (Some 1))\<lparr>pk := Some 1, title := Some ''A'', text := Some ''B'',
          reason := Some ''C''\<rparr>,
        (MotionVersion_init (Some 1))\<lparr>pk := Some 2, title := Some ''A2'', text := Some ''B'',
          reason := Some ''C''\<rparr>]\<rparr>"

definition example_one_version :: database where
  "example_one_version = empty_database\<lparr>Motion_objects := [(1, ''pub'')],
     MotionVersion_objects :=
       [(MotionVersion_init (Some 1))\<lparr>pk := Some 1, title := Some ''A'', text := Some ''B'',
          reason := Some ''C''\<rparr>]\<rparr>"

definition example_no_versions :: database where
  "example_no_versions = empty_database\<lparr>Motion_objects := [(1, ''pub'')]\<rparr>"

section \<open>Properties\<close>

subsection \<open>The number of a version\<close>

text \<open>
  C10: a version that has not been saved (its key is unset) has the string \<^verbatim>\<open>'new'\<close> as its
  version number, not an integer.
\<close>

theorem version_number_new: "pk v = None \<Longrightarrow> version_number db v = Inr (Inl ''new'')"
  by (simp add: version_number_def)

theorem version_number_new_witness:
  "pk (MotionVersion_init (Some 1)) = None \<and>
   version_number empty_database (MotionVersion_init (Some 1)) = Inr (Inl ''new'')"
proof -
  have h: "pk (MotionVersion_init (Some 1)) = None" by (simp add: MotionVersion_init_def)
  show ?thesis using h version_number_new [OF h, of empty_database] by simp
qed

lemma filter_le_nth_take:
  fixes f :: "'a \<Rightarrow> nat"
  shows "sorted_wrt (\<lambda>a b. f a < f b) xs \<Longrightarrow> i < length xs \<Longrightarrow>
         filter (\<lambda>r. f r \<le> f (xs ! i)) xs = take (Suc i) xs"
proof (induction xs arbitrary: i)
  case Nil
  then show ?case by simp
next
  case (Cons x xs)
  show ?case
  proof (cases i)
    case 0
    from Cons.prems(1) have "\<forall>r \<in> set xs. \<not> f r \<le> f x" by auto
    then have "filter (\<lambda>r. f r \<le> f x) xs = []" by (simp add: filter_empty_conv)
    with 0 show ?thesis by simp
  next
    case (Suc j)
    with Cons.prems have j: "j < length xs" and s: "sorted_wrt (\<lambda>a b. f a < f b) xs"
      by simp_all
    from Cons.prems(1) j have "f x < f (xs ! j)" by simp
    with Suc Cons.IH [OF s j] show ?thesis by simp
  qed
qed

lemma version_number_nth:
  assumes ok: "version_keys_increasing db" and m: "Motion_id m = Some k"
    and i: "i < length (versions db m)"
  shows "version_number db (versions db m ! i) = Inr (Inr (Suc i))"
proof -
  let ?vs = "versions db m"
  let ?v = "?vs ! i"
  have vs: "?vs = filter (\<lambda>r. motion r = Some k) (MotionVersion_objects db)"
    using m by (simp add: versions_def)
  have sorted: "sorted_wrt (\<lambda>a b. pk_key a < pk_key b) ?vs"
    using ok unfolding vs version_keys_increasing_def by (simp add: sorted_wrt_filter)
  have keys: "\<forall>r \<in> set ?vs. pk r = Some (pk_key r)"
    using ok unfolding vs version_keys_increasing_def by (auto simp add: pk_key_def)
  have v: "?v \<in> set ?vs" using i by simp
  then have mv: "motion ?v = Some k" unfolding vs by simp
  from v keys have pv: "pk ?v = Some (pk_key ?v)" by blast
  have "filter (\<lambda>r. case pk r of None \<Rightarrow> False | Some j \<Rightarrow> j \<le> pk_key ?v) ?vs =
        filter (\<lambda>r. pk_key r \<le> pk_key ?v) ?vs"
    using keys by (intro filter_cong) auto
  also have "\<dots> = take (Suc i) ?vs" by (rule filter_le_nth_take [OF sorted i])
  finally have
    "length (filter (\<lambda>r. case pk r of None \<Rightarrow> False | Some j \<Rightarrow> j \<le> pk_key ?v) ?vs) = Suc i"
    using i by simp
  moreover have "version_number db ?v =
      Inr (Inr (length (filter (\<lambda>r. case pk r of None \<Rightarrow> False | Some j \<Rightarrow> j \<le> pk_key ?v)
         (filter (\<lambda>r. motion r = Some k) (MotionVersion_objects db)))))"
    unfolding version_number_def by (simp add: pv mv del: filter_filter)
  ultimately show ?thesis by (simp only: vs [symmetric])
qed

text \<open>
  C3: the version numbers of the versions of one motion, in the order of their creation,
  are 1, 2, ..., N: the number of a version is one more than the number of versions of
  the motion created before it. Creation order is the order of the table, in which the
  keys grow.
\<close>

theorem version_numbers_sequence:
  assumes "version_keys_increasing db"
  shows "map (version_number db) (versions db m) =
         map (\<lambda>n. Inr (Inr n)) [1..<Suc (length (versions db m))]"
proof (cases "Motion_id m")
  case None
  then show ?thesis by (simp add: versions_def)
next
  case (Some k)
  show ?thesis
  proof (rule nth_equalityI)
    show "length (map (version_number db) (versions db m)) =
          length (map (\<lambda>n. Inr (Inr n)) [1..<Suc (length (versions db m))])"
      by (simp del: upt_Suc)
  next
    fix i assume "i < length (map (version_number db) (versions db m))"
    then have i: "i < length (versions db m)" by simp
    then have "i < length [1..<Suc (length (versions db m))]"
      and "[1..<Suc (length (versions db m))] ! i = Suc i"
      by (simp_all add: nth_upt del: upt_Suc)
    then have R: "map (\<lambda>n. Inr (Inr n)) [1..<Suc (length (versions db m))] ! i =
        Inr (Inr (Suc i))"
      by (simp only: nth_map)
    have L: "map (version_number db) (versions db m) ! i = Inr (Inr (Suc i))"
      using i by (simp only: nth_map version_number_nth [OF assms Some i])
    show "map (version_number db) (versions db m) ! i =
          map (\<lambda>n. Inr (Inr n)) [1..<Suc (length (versions db m))] ! i"
      by (simp only: L R)
  qed
qed

theorem version_numbers_sequence_witness:
  "version_keys_increasing example_two_versions \<and>
   map (version_number example_two_versions)
     (versions example_two_versions (example_motion ''pub'')) = [Inr (Inr 1), Inr (Inr 2)]"
proof -
  have a: "version_keys_increasing example_two_versions"
    by (simp add: version_keys_increasing_def example_two_versions_def empty_database_def
        MotionVersion_init_def pk_key_def)
  have b: "length (versions example_two_versions (example_motion ''pub'')) = 2"
    by (simp add: versions_def example_two_versions_def
      example_motion_def Motion_init_def empty_database_def MotionVersion_init_def)
  have c: "[1..<Suc 2] = [1, 2]" by (simp add: upt_conv_Cons)
  show ?thesis
    using a version_numbers_sequence [OF a, of "example_motion ''pub''"]
    by (simp only: b c) simp
qed

subsection \<open>State transitions\<close>

text \<open>
  C4: for a motion whose current state resolves, \<^verbatim>\<open>set_state\<close> succeeds exactly when the
  state it is given (an object, or the state that an id resolves to) is among the next
  states of the current state; otherwise it raises \<^verbatim>\<open>WorkflowError\<close> and the motion, with
  its \<^verbatim>\<open>state_id\<close>, is as before.
\<close>

theorem set_state_iff:
  assumes "get_state registry m = Some cur"
  shows "(fst (set_state registry arg m) = Inr ()) =
           (case arg of
              StateObject s \<Rightarrow> st_id s \<in> set (st_next_states cur)
            | StateId i \<Rightarrow> (\<exists>s. registry i = Some s \<and> st_id s \<in> set (st_next_states cur))) \<and>
         (fst (set_state registry arg m) \<noteq> Inr () \<longrightarrow>
            set_state registry arg m = (Inl WorkflowError, m)) \<and>
         (fst (set_state registry arg m) = Inr () \<longrightarrow>
            state_id (snd (set_state registry arg m)) \<in> set (st_next_states cur))"
  using assms by (cases arg) (auto simp add: set_state_def split: option.splits)

theorem set_state_iff_witness:
  "set_state example_registry (StateId ''per'') (example_motion ''pub'') =
     (Inr (), example_motion ''per'') \<and>
   set_state example_registry (StateObject state_pub) (example_motion ''pub'') =
     (Inl WorkflowError, example_motion ''pub'')"
proof -
  have a: "get_state example_registry (example_motion ''pub'') = Some state_pub"
    by (simp add: get_state_def example_registry_def example_motion_def)
  have b: "fst (set_state example_registry (StateObject state_pub) (example_motion ''pub''))
      \<noteq> Inr ()"
    using set_state_iff [OF a, of "StateObject state_pub"] by (simp add: state_pub_def)
  have c: "set_state example_registry (StateId ''per'') (example_motion ''pub'') =
     (Inr (), example_motion ''per'')"
    by (simp add: set_state_def get_state_def example_registry_def example_motion_def
        state_pub_def state_per_def)
  show ?thesis
    using set_state_iff [OF a, of "StateObject state_pub"] b c by simp
qed

subsection \<open>Polls\<close>

lemma fold_max_Max: "fold max ys (x::nat) = Max (insert x (set ys))"
  using Max.set_eq_fold [of x ys] by simp

lemma aggregate_Max_or_0:
  "(case aggregate_Max xs of None \<Rightarrow> 0 | Some n \<Rightarrow> (if n = 0 then 0 else n)) =
   Max (insert 0 (set xs))"
proof (cases xs)
  case Nil
  then show ?thesis by (simp add: aggregate_Max_def)
next
  case (Cons x ys)
  have "Max (insert x (set ys)) = Max (insert 0 (insert x (set ys)))"
    by (simp add: Max_insert [of "insert x (set ys)" 0] del: Max_insert)
  with Cons show ?thesis by (simp add: aggregate_Max_def fold_max_Max)
qed

text \<open>
  C5: for a saved motion whose current state allows polls, \<^verbatim>\<open>create_poll\<close> returns a new
  poll whose number is one more than the largest poll number of the motion, and 1 when the
  motion has no poll; with the poll numbers 1 and 2 the new poll has number 3.
\<close>

theorem create_poll_number:
  assumes "get_state registry m = Some st" and "st_poll st" and "Motion_id m = Some k"
  shows "create_poll registry m db =
    (let p = \<lparr>poll_pk = Some (fresh_pk (List.map_filter poll_pk (MotionPoll_objects db))),
               poll_motion = Some k,
               poll_number = Suc (Max (insert 0 (set (map poll_number (polls db m)))))\<rparr>
     in (Inr p, m, set_options p (db\<lparr>MotionPoll_objects := MotionPoll_objects db @ [p]\<rparr>)))"
proof -
  let ?n = "Max (insert 0 (set (map poll_number (polls db m))))"
  have "poll_number r \<le> ?n"
    if "r \<in> set (MotionPoll_objects db)" "poll_motion r = Some k" for r
  proof -
    from that assms(3) have "poll_number r \<in> set (map poll_number (polls db m))"
      by (simp add: polls_def)
    then show ?thesis by (intro Max_ge) auto
  qed
  then have "\<not> (\<exists>r \<in> set (MotionPoll_objects db).
      poll_motion r = Some k \<and> poll_number r = Suc ?n)"
    by fastforce
  then show ?thesis
    using assms by (simp add: create_poll_def aggregate_Max_or_0 MotionPoll_create_def Let_def)
qed

theorem create_poll_number_witness:
  "fst (create_poll example_registry (example_motion ''per'') example_polls) =
     Inr \<lparr>poll_pk = Some 3, poll_motion = Some 1, poll_number = 3\<rparr>"
proof -
  have a: "get_state example_registry (example_motion ''per'') = Some state_per"
    by (simp add: get_state_def example_registry_def example_motion_def)
  have b: "st_poll state_per" by (simp add: state_per_def)
  have c: "Motion_id (example_motion ''per'') = Some 1" by (simp add: example_motion_def)
  show ?thesis
    using create_poll_number [OF a b c, of example_polls]
    by (simp add: Let_def example_polls_def empty_database_def polls_def c fresh_pk_def
        List.map_filter_simps)
qed

text \<open>
  C6: when the poll flag of the current state is false, \<^verbatim>\<open>create_poll\<close> raises
  \<^verbatim>\<open>WorkflowError\<close>; the database (no poll row, the same versions) and the motion (the
  same \<^verbatim>\<open>state_id\<close>) are as before.
\<close>

theorem create_poll_denied:
  "get_state registry m = Some st \<Longrightarrow> \<not> st_poll st \<Longrightarrow>
   create_poll registry m db = (Inl WorkflowError, m, db)"
  by (simp add: create_poll_def)

theorem create_poll_denied_witness:
  "get_state example_registry (example_motion ''pub'') = Some state_pub \<and>
   \<not> st_poll state_pub \<and>
   create_poll example_registry (example_motion ''pub'') example_polls =
     (Inl WorkflowError, example_motion ''pub'', example_polls)"
proof -
  have a: "get_state example_registry (example_motion ''pub'') = Some state_pub"
    by (simp add: get_state_def example_registry_def example_motion_def)
  have b: "\<not> st_poll state_pub" by (simp add: state_pub_def)
  show ?thesis using a b create_poll_denied [OF a b, of example_polls] by simp
qed

subsection \<open>Supporters\<close>

text \<open>
  C7: for a saved motion whose current state allows support and a person with at most one
  supporter row, two calls of \<^verbatim>\<open>support\<close> in a row leave exactly one row for the person;
  the second call returns without an error and changes nothing.
\<close>

theorem support_twice:
  assumes "get_state registry m = Some st" and "st_support st" and "Motion_id m = Some k"
    and "length (filter (\<lambda>r. supporter_person r = p) (supporter db m)) \<le> 1"
  shows "case support registry p m db of (r, m1, db1) \<Rightarrow>
           r = Inr () \<and> m1 = m \<and>
           support registry p m1 db1 = (Inr (), m1, db1) \<and>
           length (filter (\<lambda>r. supporter_person r = p) (supporter db1 m1)) = 1"
proof (cases "is_supporter db m p")
  case True
  then have "length (filter (\<lambda>r. supporter_person r = p) (supporter db m)) \<noteq> 0"
    by (simp add: is_supporter_def)
  with assms(4) have "length (filter (\<lambda>r. supporter_person r = p) (supporter db m)) = 1"
    by linarith
  with True assms(1,2) show ?thesis by (simp add: support_def)
next
  case False
  then have "filter (\<lambda>r. supporter_person r = p) (supporter db m) = []"
    by (simp add: is_supporter_def)
  with False assms(1,2,3) show ?thesis
    by (simp add: support_def MotionSupporter_save_def is_supporter_def supporter_def)
qed

theorem support_twice_witness:
  "case support example_registry ''user:1'' (example_motion ''pub'') example_supporters of
     (r, m1, db1) \<Rightarrow>
       r = Inr () \<and> m1 = example_motion ''pub'' \<and>
       support example_registry ''user:1'' m1 db1 = (Inr (), m1, db1) \<and>
       length (filter (\<lambda>r. supporter_person r = ''user:1'') (supporter db1 m1)) = 1"
proof -
  have a: "get_state example_registry (example_motion ''pub'') = Some state_pub"
    by (simp add: get_state_def example_registry_def example_motion_def)
  have b: "st_support state_pub" by (simp add: state_pub_def)
  have c: "Motion_id (example_motion ''pub'') = Some 1" by (simp add: example_motion_def)
  have d: "length (filter (\<lambda>r. supporter_person r = ''user:1'')
             (supporter example_supporters (example_motion ''pub''))) \<le> 1"
    by (simp add: supporter_def example_supporters_def empty_database_def c)
  show ?thesis by (rule support_twice [OF a b c d])
qed

subsection \<open>Selecting a version\<close>

text \<open>
  C8, as the claim states it, fails: with two versions, the integer 2 raises
  \<^verbatim>\<open>IndexError\<close>, the integer 0 is accepted, the integer 1 selects the second version, and
  \<^verbatim>\<open>None\<close>, which is neither an integer nor a version, is accepted.
\<close>

theorem set_version_ordinal_counterexample:
  "length (versions example_two_versions (example_motion ''pub'')) = 2 \<and>
   fst (set_version example_two_versions (VersionInt 2) (example_motion ''pub'')) =
     Inl IndexError \<and>
   fst (set_version example_two_versions (VersionInt 0) (example_motion ''pub'')) = Inr () \<and>
   priv_version (snd (set_version example_two_versions (VersionInt 1) (example_motion ''pub'')))
     = Some (versions example_two_versions (example_motion ''pub'') ! 1) \<and>
   fst (set_version example_two_versions VersionNone (example_motion ''pub'')) = Inr ()"
  by (simp add: set_version_def queryset_getitem_def versions_def example_two_versions_def
      example_motion_def Motion_init_def empty_database_def MotionVersion_init_def)

text \<open>
  C8, amended: the integer is an index that counts from 0. For a motion with N versions,
  an integer n with 0 \<le> n < N selects the version at position n of the creation order
  (the first version for 0); an integer n \<ge> N raises \<^verbatim>\<open>IndexError\<close> and a negative one
  fails the assertion of the query set; a value that is not \<^verbatim>\<open>None\<close>, an integer or a
  version raises \<^verbatim>\<open>ValueError\<close>; \<^verbatim>\<open>None\<close> clears the selection. A failed call leaves the
  motion as it was.
\<close>

theorem set_version_index:
  "(0 \<le> n \<and> nat n < length (versions db m) \<longrightarrow>
      set_version db (VersionInt n) m =
        (Inr (), m\<lparr>priv_version := Some (versions db m ! nat n)\<rparr>)) \<and>
   (length (versions db m) \<le> nat n \<and> 0 \<le> n \<longrightarrow>
      set_version db (VersionInt n) m = (Inl IndexError, m)) \<and>
   (n < 0 \<longrightarrow> set_version db (VersionInt n) m = (Inl AssertionError, m)) \<and>
   set_version db VersionOther m = (Inl ValueError, m) \<and>
   set_version db VersionNone m = (Inr (), m\<lparr>priv_version := None\<rparr>) \<and>
   set_version db (VersionObject v) m = (Inr (), m\<lparr>priv_version := Some v\<rparr>)"
  by (simp add: set_version_def queryset_getitem_def)

theorem set_version_index_witness:
  "title (the (priv_version (snd
     (set_version example_two_versions (VersionInt 1) (example_motion ''pub''))))) =
     Some ''A2'' \<and>
   set_version example_two_versions (VersionInt 2) (example_motion ''pub'') =
     (Inl IndexError, example_motion ''pub'') \<and>
   set_version example_two_versions (VersionInt (- 1)) (example_motion ''pub'') =
     (Inl AssertionError, example_motion ''pub'')"
proof -
  have a: "versions example_two_versions (example_motion ''pub'') =
      MotionVersion_objects example_two_versions"
    by (simp add: versions_def example_two_versions_def
      example_motion_def Motion_init_def empty_database_def MotionVersion_init_def)
  show ?thesis
    using set_version_index [of 1 example_two_versions "example_motion ''pub''"]
      set_version_index [of 2 example_two_versions "example_motion ''pub''"]
      set_version_index [of "- 1" example_two_versions "example_motion ''pub''"]
    by (simp add: a) (simp add: example_two_versions_def empty_database_def)
qed

subsection \<open>Saving\<close>

lemma Model_save_saved:
  "Motion_id m = Some k \<Longrightarrow>
   fst (Model_save m db) = m \<and>
   MotionVersion_objects (snd (Model_save m db)) = MotionVersion_objects db"
  by (simp add: Model_save_def)

lemma last_version_nonempty:
  "versions db m \<noteq> [] \<Longrightarrow> last_version db m = (last (order_by_id (versions db m)), m)"
proof -
  assume "versions db m \<noteq> []"
  then have "set (order_by_id (versions db m)) \<noteq> {}" by (simp add: order_by_id_def)
  then have "order_by_id (versions db m) \<noteq> []" by auto
  then show ?thesis
    by (cases "order_by_id (versions db m)" rule: rev_cases) (simp_all add: last_version_def)
qed

text \<open>
  C2: a motion has exactly one version, with the fields (a, b, c); only a title a2 that
  differs from a is staged, and the configuration asks for a new version at every change.
  Then \<^verbatim>\<open>save\<close> succeeds and the motion has two versions: the old one, and a second one
  with the title a2 and the text b and the reason c of the first. The staged title is
  written and its attribute deleted; the fields that are not staged are copied from the
  last version into the new object.
\<close>

theorem save_always_new_carries_forward:
  assumes one: "versions db m = [v1]"
    and v1: "title v1 = Some a" "text v1 = Some b" "reason v1 = c"
    and staged: "priv_title m = Some (Some a2)" "priv_text m = None" "priv_reason m = None"
    and diff: "a2 \<noteq> a"
    and st: "state_id m \<noteq> []"
    and unsaved: "\<forall>v. priv_new_version m = Some v \<longrightarrow> pk v = None"
  shows "\<exists>v2 m' db'.
           save registry ''ALLWASY_CREATE_NEW_VERSION'' m db = (Inr (), m', db') \<and>
           versions db' m' = [v1, v2] \<and>
           title v2 = Some a2 \<and> text v2 = Some b \<and> reason v2 = c \<and>
           priv_title m' = None \<and> priv_text m' = None \<and> priv_reason m' = None"
proof -
  from one obtain k where k: "Motion_id m = Some k"
    by (cases "Motion_id m") (simp_all add: versions_def)
  obtain db1 where db1: "Model_save m db = (m, db1)"
    and rows: "MotionVersion_objects db1 = MotionVersion_objects db"
    using Model_save_saved [OF k, of db] by (cases "Model_save m db") simp
  have F: "filter (\<lambda>r. motion r = Some k) (MotionVersion_objects db) = [v1]"
    using one k by (simp add: versions_def)
  have lv: "last_version db1 m' = (v1, m')" if "Motion_id m' = Some k" for m'
    using that F rows by (simp add: last_version_def versions_def order_by_id_def)
  have nd: "save_new_data db1 [Title, Text, Reason] m = (True, m)"
    using staged v1 diff lv [OF k] by (simp add: get_title_def)
  define base where "base = (case priv_new_version m of None \<Rightarrow> MotionVersion_init (Some k) | Some v \<Rightarrow> v)"
  have nv: "(case new_version m of (version, m3) \<Rightarrow>
       save_write db1 (m3\<lparr>priv_new_version := None\<rparr>) (version\<lparr>motion := Motion_id m3\<rparr>)) =
     save_write db1 (m\<lparr>priv_new_version := None\<rparr>) (base\<lparr>motion := Some k\<rparr>)"
    unfolding base_def new_version_def using k by (simp add: Let_def split: option.splits)
  have pkb: "pk base = None"
    unfolding base_def using unsaved by (simp add: MotionVersion_init_def split: option.splits)
  define v2 where "v2 = base\<lparr>motion := Some k, title := Some a2, text := Some b, reason := c,
     pk := Some (fresh_pk (List.map_filter pk (MotionVersion_objects db)))\<rparr>"
  define m' where "m' = m\<lparr>priv_new_version := None, priv_title := None\<rparr>"
  have sa: "save_set_attrs db1 [Title, Text, Reason] (m\<lparr>priv_new_version := None\<rparr>)
      (base\<lparr>motion := Some k\<rparr>) =
      (base\<lparr>motion := Some k, title := Some a2, text := Some b, reason := c\<rparr>, m')"
    using staged v1 k lv [of m'] by (simp add: m'_def)
  have sw: "save_write db1 (m\<lparr>priv_new_version := None\<rparr>) (base\<lparr>motion := Some k\<rparr>) =
      (Inr (), m', db1\<lparr>MotionVersion_objects := MotionVersion_objects db @ [v2]\<rparr>)"
    unfolding save_write_def sa by (simp add: MotionVersion_save_def pkb rows v2_def Let_def)
  have "save registry ''ALLWASY_CREATE_NEW_VERSION'' m db =
      (Inr (), m', db1\<lparr>MotionVersion_objects := MotionVersion_objects db @ [v2]\<rparr>)"
    unfolding save_def using st by (simp add: db1 nd nv k sw del: save_new_data.simps)
  moreover have "versions (db1\<lparr>MotionVersion_objects := MotionVersion_objects db @ [v2]\<rparr>) m' =
      [v1, v2]"
    using k F by (simp add: versions_def m'_def v2_def)
  moreover have "title v2 = Some a2" "text v2 = Some b" "reason v2 = c"
    by (simp_all add: v2_def)
  moreover have "priv_title m' = None" "priv_text m' = None" "priv_reason m' = None"
    using staged by (simp_all add: m'_def)
  ultimately show ?thesis by blast
qed

theorem save_always_new_carries_forward_witness:
  "case save example_registry ''ALLWASY_CREATE_NEW_VERSION''
          (set_title (Some ''A2'') (example_motion ''pub'')) example_one_version of
     (r, m', db') \<Rightarrow>
       r = Inr () \<and> priv_title m' = None \<and>
       map (\<lambda>v. (title v, text v, reason v)) (versions db' m') =
         [(Some ''A'', Some ''B'', Some ''C''), (Some ''A2'', Some ''B'', Some ''C'')]"
proof -
  let ?m = "set_title (Some ''A2'') (example_motion ''pub'')"
  let ?v1 = "(MotionVersion_init (Some 1))\<lparr>pk := Some 1, title := Some ''A'', text := Some ''B'',
          reason := Some ''C''\<rparr>"
  have one: "versions example_one_version ?m = [?v1]"
    by (simp add: versions_def example_one_version_def set_title_def example_motion_def
        Motion_init_def empty_database_def MotionVersion_init_def)
  have v1: "title ?v1 = Some ''A''" "text ?v1 = Some ''B''" "reason ?v1 = Some ''C''"
    by simp_all
  have staged: "priv_title ?m = Some (Some ''A2'')" "priv_text ?m = None" "priv_reason ?m = None"
    by (simp_all add: set_title_def example_motion_def Motion_init_def)
  have diff: "''A2'' \<noteq> ''A''" by simp
  have st: "state_id ?m \<noteq> []" by (simp add: set_title_def example_motion_def)
  have unsaved: "\<forall>v. priv_new_version ?m = Some v \<longrightarrow> pk v = None"
    by (simp add: set_title_def example_motion_def Motion_init_def)
  from save_always_new_carries_forward [OF one v1 staged diff st unsaved, of example_registry]
  obtain v2 m' db' where
    "save example_registry ''ALLWASY_CREATE_NEW_VERSION'' ?m example_one_version = (Inr (), m', db')"
    "versions db' m' = [?v1, v2]" "title v2 = Some ''A2''" "text v2 = Some ''B''"
    "reason v2 = Some ''C''" "priv_title m' = None"
    by blast
  then show ?thesis by simp
qed

lemma fold_max_ge: "(x::nat) \<in> set ks \<Longrightarrow> x \<le> fold max ks a"
  unfolding fold_max_Max by (rule Max_ge) simp_all

lemma fresh_pk_notin: "fresh_pk ks \<notin> set ks"
proof
  assume "fresh_pk ks \<in> set ks"
  then have "fresh_pk ks \<le> fold max ks 0" by (rule fold_max_ge)
  then show False by (simp add: fresh_pk_def)
qed

lemma Model_save_rows:
  "MotionVersion_objects (snd (Model_save m db)) = MotionVersion_objects db"
  by (simp add: Model_save_def Let_def split: option.splits)

lemma Model_save_motion:
  "fst (Model_save m db) =
     (case Motion_id m of
        None \<Rightarrow> m\<lparr>Motion_id := Some (fresh_pk (map fst (Motion_objects db)))\<rparr>
      | Some k \<Rightarrow> m)"
  by (simp add: Model_save_def Let_def split: option.splits)

lemma versions_after_Model_save:
  assumes "version_motions_exist db" and "versions db m = []"
  shows "versions (snd (Model_save m db)) (fst (Model_save m db)) = []"
proof (cases "Motion_id m")
  case None
  let ?k = "fresh_pk (map fst (Motion_objects db))"
  have "?k \<notin> fst ` set (Motion_objects db)" using fresh_pk_notin [of "map fst (Motion_objects db)"] by simp
  with assms(1) have "\<forall>r \<in> set (MotionVersion_objects db). motion r \<noteq> Some ?k"
    unfolding version_motions_exist_def by (metis option.inject)
  then have "filter (\<lambda>r. motion r = Some ?k) (MotionVersion_objects db) = []"
    by (simp add: filter_empty_conv)
  with None show ?thesis by (simp add: versions_def Model_save_rows Model_save_motion)
next
  case (Some k)
  with assms(2) show ?thesis by (simp add: versions_def Model_save_rows Model_save_motion)
qed

lemma last_version_memo:
  "versions db m = [] \<Longrightarrow> priv_new_version m = Some v \<Longrightarrow> last_version db m = (v, m)"
  by (simp add: last_version_def order_by_id_def new_version_def)

lemma getattr_Motion_memo:
  assumes "versions db m = []" and "priv_new_version m = Some v"
  shows "snd (getattr_Motion db m a) = m"
  using last_version_memo [OF assms]
  by (cases a) (simp_all add: get_title_def get_text_def get_reason_def get_version_def
      split: option.splits)

lemma save_new_data_memo:
  assumes "versions db m = []" and "priv_new_version m = Some v"
  shows "snd (save_new_data db as m) = m"
proof (induction as)
  case Nil
  show ?case by simp
next
  case (Cons a as)
  obtain x where "getattr_Motion db m a = (x, m)"
    using getattr_Motion_memo [OF assms, of a] by (cases "getattr_Motion db m a") simp
  with Cons show ?case by (simp add: last_version_memo [OF assms])
qed

lemma last_version_empty:
  "versions db m = [] \<Longrightarrow> last_version db m = new_version m"
  by (simp add: last_version_def order_by_id_def)

lemma versions_same_id:
  "Motion_id m' = Motion_id m \<Longrightarrow> versions db m' = versions db m"
  by (simp add: versions_def)

lemma save_set_attrs_empty:
  assumes "versions db m = []" and "priv_new_version m = None"
  shows "save_set_attrs db [Title, Text, Reason] m ver =
     (ver\<lparr>title := (case priv_title m of Some x \<Rightarrow> x | None \<Rightarrow> Some []),
          text := (case priv_text m of Some x \<Rightarrow> x | None \<Rightarrow> Some []),
          reason := (case priv_reason m of Some x \<Rightarrow> x | None \<Rightarrow> None)\<rparr>,
      m\<lparr>priv_title := None, priv_text := None, priv_reason := None,
        priv_new_version :=
          (if priv_title m \<noteq> None \<and> priv_text m \<noteq> None \<and> priv_reason m \<noteq> None then None
           else Some (MotionVersion_init (Motion_id m)))\<rparr>)"
proof -
  have lv: "last_version db m' = new_version m'" if "Motion_id m' = Motion_id m" for m'
    using assms(1) versions_same_id [OF that, of db] by (simp add: last_version_empty)
  show ?thesis
    using assms(2)
    by (cases "priv_title m"; cases "priv_text m"; cases "priv_reason m")
       (simp_all add: lv new_version_def Let_def MotionVersion_init_def)
qed

lemma save_memo_creates:
  assumes empty: "versions db m = []" and memo: "priv_new_version m = Some v"
    and pkv: "pk v = None"
    and st: "state_id m \<noteq> [] \<or> registry ''default'' \<noteq> None"
    and fk: "version_motions_exist db"
    and nn: "priv_title m \<noteq> Some None" "priv_text m \<noteq> Some None"
  shows "\<exists>v2 m2 db2.
           save registry cfg m db = (Inr (), m2, db2) \<and>
           MotionVersion_objects db2 = MotionVersion_objects db @ [v2] \<and>
           versions db2 m2 = [v2] \<and>
           version_number db2 v2 = Inr (Inr 1) \<and>
           Motion_id m2 \<noteq> None \<and>
           (Motion_id m \<noteq> None \<longrightarrow> Motion_id m2 = Motion_id m) \<and>
           v2 = v\<lparr>motion := Motion_id m2,
                  title := (case priv_title m of Some x \<Rightarrow> x | None \<Rightarrow> Some []),
                  text := (case priv_text m of Some x \<Rightarrow> x | None \<Rightarrow> Some []),
                  reason := (case priv_reason m of Some x \<Rightarrow> x | None \<Rightarrow> None),
                  pk := Some (fresh_pk (List.map_filter pk (MotionVersion_objects db)))\<rparr>"
proof -
  define m0 where "m0 = (if state_id m = [] then m\<lparr>state_id := st_id (the (registry ''default''))\<rparr> else m)"
  have r0: "(if state_id m = [] then reset_state registry m else (Inr (), m)) = (Inr (), m0)"
    using st by (auto simp add: reset_state_def m0_def)
  have m0: "priv_new_version m0 = Some v" "priv_title m0 = priv_title m"
    "priv_text m0 = priv_text m" "priv_reason m0 = priv_reason m" "Motion_id m0 = Motion_id m"
    using memo by (simp_all add: m0_def)
  have e0: "versions db m0 = []" using empty versions_same_id [OF m0(5), of db] by simp
  define m1 where "m1 = fst (Model_save m0 db)"
  define db1 where "db1 = snd (Model_save m0 db)"
  have ms: "Model_save m0 db = (m1, db1)" by (simp add: m1_def db1_def)
  have rows: "MotionVersion_objects db1 = MotionVersion_objects db"
    by (simp add: db1_def Model_save_rows)
  have e1: "versions db1 m1 = []"
    unfolding db1_def m1_def by (rule versions_after_Model_save [OF fk e0])
  have m1: "priv_new_version m1 = Some v" "priv_title m1 = priv_title m"
    "priv_text m1 = priv_text m" "priv_reason m1 = priv_reason m"
    using m0 by (simp_all add: m1_def Model_save_motion split: option.splits)
  obtain k where k: "Motion_id m1 = Some k"
    by (cases "Motion_id m0") (simp_all add: m1_def Model_save_motion)
  obtain b where nd: "save_new_data db1 [Title, Text, Reason] m1 = (b, m1)"
    using save_new_data_memo [OF e1 m1(1), of "[Title, Text, Reason]"]
    by (cases "save_new_data db1 [Title, Text, Reason] m1") simp
  have nv: "new_version m1 = (v, m1)" using m1(1) by (simp add: new_version_def)
  define m4 where "m4 = m1\<lparr>priv_new_version := None\<rparr>"
  have e4: "versions db1 m4 = []" using e1 by (simp add: versions_def m4_def)
  define ver where "ver = v\<lparr>motion := Some k,
          title := (case priv_title m of Some x \<Rightarrow> x | None \<Rightarrow> Some []),
          text := (case priv_text m of Some x \<Rightarrow> x | None \<Rightarrow> Some []),
          reason := (case priv_reason m of Some x \<Rightarrow> x | None \<Rightarrow> None)\<rparr>"
  obtain m5 where sa: "save_set_attrs db1 [Title, Text, Reason] m4 (v\<lparr>motion := Some k\<rparr>) = (ver, m5)"
    and m5: "Motion_id m5 = Some k"
    using save_set_attrs_empty [OF e4, of "v\<lparr>motion := Some k\<rparr>"] m1 k
    by (simp add: m4_def ver_def)
  define v2 where "v2 = ver\<lparr>pk := Some (fresh_pk (List.map_filter pk (MotionVersion_objects db)))\<rparr>"
  define db2 where "db2 = db1\<lparr>MotionVersion_objects := MotionVersion_objects db @ [v2]\<rparr>"
  have tt: "title ver \<noteq> None" "text ver \<noteq> None"
    using nn by (auto simp add: ver_def split: option.splits)
  have sv: "MotionVersion_save ver db1 = (Inr v2, db2)"
    using tt pkv by (simp add: MotionVersion_save_def ver_def v2_def db2_def rows Let_def)
  have sw: "save_write db1 m4 (v\<lparr>motion := Some k\<rparr>) = (Inr (), m5, db2)"
    by (simp add: save_write_def sa sv del: save_set_attrs.simps)
  have res: "save registry cfg m db = (Inr (), m5, db2)"
    unfolding save_def r0
    by (simp add: ms nd m1(1) nv k sw [unfolded m4_def] del: save_new_data.simps)
  have F: "filter (\<lambda>r. motion r = Some k) (MotionVersion_objects db) = []"
    using e1 k rows by (simp add: versions_def)
  have vs: "versions db2 m5 = [v2]"
    using F m5 by (simp add: versions_def db2_def v2_def ver_def)
  have vn: "version_number db2 v2 = Inr (Inr 1)"
    using F by (simp add: version_number_def db2_def v2_def ver_def)
  have same: "Motion_id m \<noteq> None \<longrightarrow> Motion_id m5 = Motion_id m"
    using m0(5) k m5 by (auto simp add: m1_def Model_save_motion)
  have obj: "v2 = v\<lparr>motion := Motion_id m5,
                  title := (case priv_title m of Some x \<Rightarrow> x | None \<Rightarrow> Some []),
                  text := (case priv_text m of Some x \<Rightarrow> x | None \<Rightarrow> Some []),
                  reason := (case priv_reason m of Some x \<Rightarrow> x | None \<Rightarrow> None),
                  pk := Some (fresh_pk (List.map_filter pk (MotionVersion_objects db)))\<rparr>"
    using m5 by (simp add: v2_def ver_def)
  show ?thesis
  proof (intro exI conjI)
    show "save registry cfg m db = (Inr (), m5, db2)" by (fact res)
    show "MotionVersion_objects db2 = MotionVersion_objects db @ [v2]" by (simp add: db2_def)
    show "versions db2 m5 = [v2]" by (fact vs)
    show "version_number db2 v2 = Inr (Inr 1)" by (fact vn)
    show "Motion_id m5 \<noteq> None" using m5 by simp
    show "Motion_id m \<noteq> None \<longrightarrow> Motion_id m5 = Motion_id m" by (fact same)
    show "v2 = v\<lparr>motion := Motion_id m5,
                  title := (case priv_title m of Some x \<Rightarrow> x | None \<Rightarrow> Some []),
                  text := (case priv_text m of Some x \<Rightarrow> x | None \<Rightarrow> Some []),
                  reason := (case priv_reason m of Some x \<Rightarrow> x | None \<Rightarrow> None),
                  pk := Some (fresh_pk (List.map_filter pk (MotionVersion_objects db)))\<rparr>"
      by (fact obj)
  qed
qed

text \<open>
  C9: for a motion without versions, \<^verbatim>\<open>last_version\<close> returns a version object and never
  nothing. When \<^verbatim>\<open>_new_version\<close> is absent the object is a new unsaved
  \<^verbatim>\<open>MotionVersion\<close> whose motion is this motion; when the attribute exists, the object is
  the one stored there and the motion is unchanged. In both cases the object is in
  \<^verbatim>\<open>_new_version\<close> afterwards and nothing else of the motion changes, so a second read
  returns the same object and changes nothing. The next \<^verbatim>\<open>save\<close> takes the branch of the new
  version: it saves this very object, with the motion set and the staged values (or the
  defaults of a new version) written, under a new key, as the only version of the motion,
  with version number 1; a motion that had an id keeps it. The last part needs that the
  state id can be set, that the table respects the foreign key, and that no staged title or
  text is \<^verbatim>\<open>None\<close>.
\<close>

theorem last_version_empty_ledger:
  assumes empty: "versions db m = []"
    and unsaved: "\<forall>v. priv_new_version m = Some v \<longrightarrow> pk v = None"
  shows "case last_version db m of (v, m') \<Rightarrow>
           pk v = None \<and>
           (priv_new_version m = None \<longrightarrow>
              v = MotionVersion_init (Motion_id m) \<and> motion v = Motion_id m) \<and>
           (\<forall>u. priv_new_version m = Some u \<longrightarrow> v = u \<and> m' = m) \<and>
           priv_new_version m' = Some v \<and>
           m' = m\<lparr>priv_new_version := Some v\<rparr> \<and>
           last_version db m' = (v, m') \<and>
           ((state_id m \<noteq> [] \<or> registry ''default'' \<noteq> None) \<and> version_motions_exist db \<and>
            priv_title m \<noteq> Some None \<and> priv_text m \<noteq> Some None \<longrightarrow>
              (\<exists>v2 m2 db2.
                 save registry cfg m' db = (Inr (), m2, db2) \<and>
                 MotionVersion_objects db2 = MotionVersion_objects db @ [v2] \<and>
                 versions db2 m2 = [v2] \<and>
                 version_number db2 v2 = Inr (Inr 1) \<and>
                 Motion_id m2 \<noteq> None \<and>
                 (Motion_id m \<noteq> None \<longrightarrow> Motion_id m2 = Motion_id m) \<and>
                 motion v2 = Motion_id m2 \<and>
                 v2 = v\<lparr>motion := Motion_id m2,
                        title := (case priv_title m of Some x \<Rightarrow> x | None \<Rightarrow> Some []),
                        text := (case priv_text m of Some x \<Rightarrow> x | None \<Rightarrow> Some []),
                        reason := (case priv_reason m of Some x \<Rightarrow> x | None \<Rightarrow> None),
                        pk := Some (fresh_pk (List.map_filter pk (MotionVersion_objects db)))\<rparr>))"
proof -
  define v where
    "v = (case priv_new_version m of None \<Rightarrow> MotionVersion_init (Motion_id m) | Some u \<Rightarrow> u)"
  define m' where "m' = m\<lparr>priv_new_version := Some v\<rparr>"
  have lv: "last_version db m = (v, m')"
    unfolding last_version_empty [OF empty] new_version_def v_def m'_def
    by (cases "priv_new_version m") (simp_all add: Let_def)
  have pkv: "pk v = None"
    using unsaved by (simp add: v_def MotionVersion_init_def split: option.splits)
  have fresh: "priv_new_version m = None \<longrightarrow>
      v = MotionVersion_init (Motion_id m) \<and> motion v = Motion_id m"
    by (simp add: v_def MotionVersion_init_def)
  have stored: "\<forall>u. priv_new_version m = Some u \<longrightarrow> v = u \<and> m' = m"
    by (simp add: v_def m'_def)
  have e': "versions db m' = []" using empty by (simp add: versions_def m'_def)
  have memo: "priv_new_version m' = Some v" by (simp add: m'_def)
  have again: "last_version db m' = (v, m')" by (rule last_version_memo [OF e' memo])
  have next_save: "\<exists>v2 m2 db2.
                 save registry cfg m' db = (Inr (), m2, db2) \<and>
                 MotionVersion_objects db2 = MotionVersion_objects db @ [v2] \<and>
                 versions db2 m2 = [v2] \<and>
                 version_number db2 v2 = Inr (Inr 1) \<and>
                 Motion_id m2 \<noteq> None \<and>
                 (Motion_id m \<noteq> None \<longrightarrow> Motion_id m2 = Motion_id m) \<and>
                 motion v2 = Motion_id m2 \<and>
                 v2 = v\<lparr>motion := Motion_id m2,
                        title := (case priv_title m of Some x \<Rightarrow> x | None \<Rightarrow> Some []),
                        text := (case priv_text m of Some x \<Rightarrow> x | None \<Rightarrow> Some []),
                        reason := (case priv_reason m of Some x \<Rightarrow> x | None \<Rightarrow> None),
                        pk := Some (fresh_pk (List.map_filter pk (MotionVersion_objects db)))\<rparr>"
    if "state_id m \<noteq> [] \<or> registry ''default'' \<noteq> None" "version_motions_exist db"
      "priv_title m \<noteq> Some None" "priv_text m \<noteq> Some None"
  proof -
    have c: "state_id m' \<noteq> [] \<or> registry ''default'' \<noteq> None"
      "priv_title m' \<noteq> Some None" "priv_text m' \<noteq> Some None"
      using that by (simp_all add: m'_def)
    have s: "priv_title m' = priv_title m" "priv_text m' = priv_text m"
      "priv_reason m' = priv_reason m" "Motion_id m' = Motion_id m"
      by (simp_all add: m'_def)
    from save_memo_creates [where registry = registry and cfg = cfg,
        OF e' memo pkv c(1) that(2) c(2,3)]
    obtain v2 m2 db2 where r:
      "save registry cfg m' db = (Inr (), m2, db2)"
      "MotionVersion_objects db2 = MotionVersion_objects db @ [v2]"
      "versions db2 m2 = [v2]"
      "version_number db2 v2 = Inr (Inr 1)"
      "Motion_id m2 \<noteq> None"
      "Motion_id m' \<noteq> None \<longrightarrow> Motion_id m2 = Motion_id m'"
      "v2 = v\<lparr>motion := Motion_id m2,
              title := (case priv_title m' of Some x \<Rightarrow> x | None \<Rightarrow> Some []),
              text := (case priv_text m' of Some x \<Rightarrow> x | None \<Rightarrow> Some []),
              reason := (case priv_reason m' of Some x \<Rightarrow> x | None \<Rightarrow> None),
              pk := Some (fresh_pk (List.map_filter pk (MotionVersion_objects db)))\<rparr>"
      by (elim exE conjE)
    from r(7) have mv: "motion v2 = Motion_id m2" by simp
    show ?thesis
    proof (intro exI conjI)
      show "save registry cfg m' db = (Inr (), m2, db2)" by (fact r(1))
      show "MotionVersion_objects db2 = MotionVersion_objects db @ [v2]" by (fact r(2))
      show "versions db2 m2 = [v2]" by (fact r(3))
      show "version_number db2 v2 = Inr (Inr 1)" by (fact r(4))
      show "Motion_id m2 \<noteq> None" by (fact r(5))
      show "Motion_id m \<noteq> None \<longrightarrow> Motion_id m2 = Motion_id m" using r(6) by (simp only: s)
      show "motion v2 = Motion_id m2" by (fact mv)
      show "v2 = v\<lparr>motion := Motion_id m2,
                        title := (case priv_title m of Some x \<Rightarrow> x | None \<Rightarrow> Some []),
                        text := (case priv_text m of Some x \<Rightarrow> x | None \<Rightarrow> Some []),
                        reason := (case priv_reason m of Some x \<Rightarrow> x | None \<Rightarrow> None),
                        pk := Some (fresh_pk (List.map_filter pk (MotionVersion_objects db)))\<rparr>"
        using r(7) by (simp only: s)
    qed
  qed
  have all: "pk v = None \<and>
           (priv_new_version m = None \<longrightarrow>
              v = MotionVersion_init (Motion_id m) \<and> motion v = Motion_id m) \<and>
           (\<forall>u. priv_new_version m = Some u \<longrightarrow> v = u \<and> m' = m) \<and>
           priv_new_version m' = Some v \<and>
           m' = m\<lparr>priv_new_version := Some v\<rparr> \<and>
           last_version db m' = (v, m')"
    using pkv fresh stored memo m'_def again by blast
  show ?thesis
    unfolding lv prod.case using all next_save by blast
qed

theorem last_version_empty_ledger_witness:
  "last_version example_no_versions (example_motion ''pub'') =
     (MotionVersion_init (Some 1),
      (example_motion ''pub'')\<lparr>priv_new_version := Some (MotionVersion_init (Some 1))\<rparr>) \<and>
   motion (fst (last_version example_no_versions (example_motion ''pub''))) = Some 1 \<and>
   (\<exists>m2 db2.
      save example_registry []
        ((example_motion ''pub'')\<lparr>priv_new_version := Some (MotionVersion_init (Some 1))\<rparr>)
        example_no_versions = (Inr (), m2, db2) \<and>
      versions db2 m2 = [(MotionVersion_init (Some 1))\<lparr>pk := Some 1\<rparr>]) \<and>
   last_version example_no_versions
     ((example_motion ''pub'')\<lparr>priv_new_version :=
        Some ((MotionVersion_init (Some 1))\<lparr>title := Some ''X''\<rparr>)\<rparr>) =
     ((MotionVersion_init (Some 1))\<lparr>title := Some ''X''\<rparr>,
      (example_motion ''pub'')\<lparr>priv_new_version :=
        Some ((MotionVersion_init (Some 1))\<lparr>title := Some ''X''\<rparr>)\<rparr>)"
proof -
  let ?m = "example_motion ''pub''"
  let ?i = "MotionVersion_init (Some 1)"
  let ?u = "?i\<lparr>title := Some ''X''\<rparr>"
  let ?mu = "?m\<lparr>priv_new_version := Some ?u\<rparr>"
  have a: "versions example_no_versions ?m = []"
    by (simp add: versions_def example_no_versions_def empty_database_def example_motion_def)
  have b: "\<forall>v. priv_new_version ?m = Some v \<longrightarrow> pk v = None"
    by (simp add: example_motion_def Motion_init_def)
  have n: "priv_new_version ?m = None" "Motion_id ?m = Some 1"
    by (simp_all add: example_motion_def Motion_init_def)
  have d: "(state_id ?m \<noteq> [] \<or> example_registry ''default'' \<noteq> None) \<and>
      version_motions_exist example_no_versions \<and>
      priv_title ?m \<noteq> Some None \<and> priv_text ?m \<noteq> Some None"
    by (simp add: version_motions_exist_def example_no_versions_def empty_database_def
        example_motion_def Motion_init_def)
  have s: "priv_title ?m = None" "priv_text ?m = None" "priv_reason ?m = None"
    by (simp_all add: example_motion_def Motion_init_def)
  have k: "fresh_pk (List.map_filter pk (MotionVersion_objects example_no_versions)) = 1"
    by (simp add: example_no_versions_def empty_database_def fresh_pk_def List.map_filter_simps)
  obtain v m' where lv: "last_version example_no_versions ?m = (v, m')" by fastforce
  note T = last_version_empty_ledger [OF a b, of example_registry "[]", unfolded lv prod.case]
  note T2 = T [THEN conjunct2, THEN conjunct1]
  note T5 = T [THEN conjunct2, THEN conjunct2, THEN conjunct2, THEN conjunct2, THEN conjunct1]
  note T7 = T [THEN conjunct2, THEN conjunct2, THEN conjunct2, THEN conjunct2, THEN conjunct2,
      THEN conjunct2, THEN mp, OF d]
  note V = T2 [THEN mp, OF n(1), unfolded n(2)]
  have v: "v = ?i" by (rule V [THEN conjunct1])
  have mv: "motion v = Some 1" by (rule V [THEN conjunct2])
  have m': "m' = ?m\<lparr>priv_new_version := Some ?i\<rparr>" using T5 unfolding v .
  from T7 obtain v2 m2 db2 where r:
      "save example_registry [] m' example_no_versions = (Inr (), m2, db2)"
      "versions db2 m2 = [v2]"
      "Motion_id ?m \<noteq> None \<longrightarrow> Motion_id m2 = Motion_id ?m"
      "v2 = v\<lparr>motion := Motion_id m2,
              title := (case priv_title ?m of Some x \<Rightarrow> x | None \<Rightarrow> Some []),
              text := (case priv_text ?m of Some x \<Rightarrow> x | None \<Rightarrow> Some []),
              reason := (case priv_reason ?m of Some x \<Rightarrow> x | None \<Rightarrow> None),
              pk := Some (fresh_pk (List.map_filter pk
                      (MotionVersion_objects example_no_versions)))\<rparr>"
    by (elim exE conjE)
  from r(3) n have "Motion_id m2 = Some 1" by simp
  with r(4) have v2: "v2 = ?i\<lparr>pk := Some 1\<rparr>"
    unfolding v s k by (simp add: MotionVersion_init_def)
  have first: "last_version example_no_versions ?m = (?i, ?m\<lparr>priv_new_version := Some ?i\<rparr>)"
    using lv v m' by simp
  have second: "motion (fst (last_version example_no_versions ?m)) = Some 1"
    using lv mv by simp
  have third: "\<exists>m2 db2.
      save example_registry [] (?m\<lparr>priv_new_version := Some ?i\<rparr>) example_no_versions =
        (Inr (), m2, db2) \<and>
      versions db2 m2 = [?i\<lparr>pk := Some 1\<rparr>]"
    using r(1,2) unfolding m' v2 by blast
  have a': "versions example_no_versions ?mu = []"
    by (simp add: versions_def example_no_versions_def empty_database_def example_motion_def)
  have b': "\<forall>v. priv_new_version ?mu = Some v \<longrightarrow> pk v = None"
    by (simp add: MotionVersion_init_def)
  obtain w mw where lw: "last_version example_no_versions ?mu = (w, mw)" by fastforce
  note U = last_version_empty_ledger [OF a' b', of example_registry "[]", unfolded lw prod.case]
  note U3 = U [THEN conjunct2, THEN conjunct2, THEN conjunct1, THEN spec, THEN mp]
  have "priv_new_version ?mu = Some ?u" by simp
  from U3 [OF this] have "w = ?u \<and> mw = ?mu" .
  with lw have fourth: "last_version example_no_versions ?mu = (?u, ?mu)" by simp
  from first second third fourth show ?thesis by (intro conjI)
qed

text \<open>
  C1 fails on the code. A new motion with a staged title and text and no staged reason is
  saved: the first \<^verbatim>\<open>save\<close> inserts version 1 and, reading \<^verbatim>\<open>self.last_version\<close> for the
  reason after \<^verbatim>\<open>del self._new_version\<close>, leaves a new object in \<^verbatim>\<open>_new_version\<close>. The
  second \<^verbatim>\<open>save\<close>, with nothing staged in between, finds the attribute and inserts
  version 2, a copy of version 1, under either value of the configuration.
\<close>

theorem save_twice_two_versions:
  "case save example_registry cfg (set_text (Some ''B'') (set_title (Some ''A'') Motion_init))
          empty_database of
     (r1, m1, db1) \<Rightarrow>
       r1 = Inr () \<and> length (versions db1 m1) = 1 \<and>
       priv_title m1 = None \<and> priv_text m1 = None \<and> priv_reason m1 = None \<and>
       priv_version m1 = None \<and>
       priv_new_version m1 = Some (MotionVersion_init (Some 1)) \<and>
       (case save example_registry cfg m1 db1 of
          (r2, m2, db2) \<Rightarrow>
            r2 = Inr () \<and> priv_new_version m2 = None \<and>
            map (\<lambda>v. (pk v, title v, text v, reason v)) (versions db2 m2) =
              [(Some 1, Some ''A'', Some ''B'', None), (Some 2, Some ''A'', Some ''B'', None)])"
  by (simp add: save_def reset_state_def example_registry_def state_pub_def Model_save_def
      fresh_pk_def set_text_def set_title_def Motion_init_def empty_database_def
      get_title_def get_text_def get_reason_def get_version_def
      last_version_def new_version_def versions_def order_by_id_def pk_key_def
      MotionVersion_init_def save_write_def MotionVersion_save_def Let_def
      List.map_filter_simps)

theorem save_twice_two_versions_witness:
  "case save example_registry ''ALLWASY_CREATE_NEW_VERSION''
          (set_text (Some ''B'') (set_title (Some ''A'') Motion_init)) empty_database of
     (r1, m1, db1) \<Rightarrow>
       (case save example_registry ''ALLWASY_CREATE_NEW_VERSION'' m1 db1 of
          (r2, m2, db2) \<Rightarrow>
            length (versions db1 m1) = 1 \<and>
            map title (versions db2 m2) = [Some ''A'', Some ''A''])"
proof -
  have "map title vs = [Some ''A'', Some ''A'']"
    if "map (\<lambda>v. (pk v, title v, text v, reason v)) vs =
              [(Some 1, Some ''A'', Some ''B'', None), (Some 2, Some ''A'', Some ''B'', None)]"
    for vs :: "MotionVersion list"
  proof -
    have "map title vs = map (fst \<circ> snd) (map (\<lambda>v. (pk v, title v, text v, reason v)) vs)"
      by simp
    then show ?thesis unfolding that by simp
  qed
  then show ?thesis
    using save_twice_two_versions [of "''ALLWASY_CREATE_NEW_VERSION''"]
    by (auto split: prod.splits)
qed

subsection \<open>What \<^verbatim>\<open>save\<close> preserves\<close>

text \<open>
  The keys of the table of versions grow in insertion order, and the object in
  \<^verbatim>\<open>_new_version\<close> is unsaved: both hold at the start and are kept by every \<open>save\<close>,
  whatever its result.
\<close>

lemma version_keys_increasing_empty: "version_keys_increasing empty_database"
  by (simp add: version_keys_increasing_def empty_database_def)

lemma version_keys_increasing_cong:
  "MotionVersion_objects db' = MotionVersion_objects db \<Longrightarrow>
   version_keys_increasing db' = version_keys_increasing db"
  by (simp add: version_keys_increasing_def)

lemma key_below_fresh_pk:
  assumes "r \<in> set rows" and "pk r \<noteq> None"
  shows "pk_key r < fresh_pk (List.map_filter pk rows)"
proof -
  from assms obtain j where j: "pk r = Some j" by auto
  with assms(1) have "j \<in> set (List.map_filter pk rows)"
    by (force simp add: List.map_filter_def)
  then have "j \<le> fold max (List.map_filter pk rows) 0" by (rule fold_max_ge)
  with j show ?thesis by (simp add: pk_key_def fresh_pk_def)
qed

lemma MotionVersion_save_keys:
  assumes ok: "version_keys_increasing db"
    and v: "pk v = None \<or> pk v \<in> pk ` set (MotionVersion_objects db)"
  shows "version_keys_increasing (snd (MotionVersion_save v db))"
proof (cases "motion v = None \<or> title v = None \<or> text v = None")
  case True
  with ok show ?thesis by (simp add: MotionVersion_save_def)
next
  case valid: False
  let ?rows = "MotionVersion_objects db"
  from ok have keys: "\<forall>r \<in> set ?rows. pk r \<noteq> None"
    and sorted: "sorted_wrt (\<lambda>a b. pk_key a < pk_key b) ?rows"
    by (simp_all add: version_keys_increasing_def)
  show ?thesis
  proof (cases "pk v")
    case None
    let ?k = "fresh_pk (List.map_filter pk ?rows)"
    have "\<forall>r \<in> set ?rows. pk_key r < ?k" using keys key_below_fresh_pk by blast
    then have "sorted_wrt (\<lambda>a b. pk_key a < pk_key b) (?rows @ [v\<lparr>pk := Some ?k\<rparr>])"
      using sorted by (simp add: sorted_wrt_append pk_key_def)
    with keys None valid show ?thesis
      by (auto simp add: MotionVersion_save_def version_keys_increasing_def Let_def)
  next
    case (Some k)
    with v have ex: "Some k \<in> pk ` set ?rows" by simp
    let ?g = "\<lambda>r. if pk r = Some k then v else r"
    have "pk_key (?g r) = pk_key r" for r using Some by (simp add: pk_key_def)
    then have "map pk_key (map ?g ?rows) = map pk_key ?rows" by simp
    moreover have "sorted_wrt (<) (map pk_key ?rows)"
      using sorted by (simp add: sorted_wrt_map)
    ultimately have "sorted_wrt (<) (map pk_key (map ?g ?rows))" by (simp only:)
    then have "sorted_wrt (\<lambda>a b. pk_key a < pk_key b) (map ?g ?rows)"
      by (simp only: sorted_wrt_map)
    moreover have "\<forall>r \<in> set (map ?g ?rows). pk r \<noteq> None" using keys Some by auto
    ultimately show ?thesis
      using Some valid ex by (auto simp add: MotionVersion_save_def version_keys_increasing_def)
  qed
qed

lemma new_version_unsaved_result:
  assumes "new_version_unsaved m"
  shows "pk (fst (new_version m)) = None \<and> new_version_unsaved (snd (new_version m))"
  using assms
  by (cases "priv_new_version m")
     (simp_all add: new_version_def new_version_unsaved_def MotionVersion_init_def Let_def)

lemma last_version_unsaved_result:
  assumes "new_version_unsaved m"
  shows "(pk (fst (last_version db m)) = None \<or>
          fst (last_version db m) \<in> set (MotionVersion_objects db)) \<and>
         new_version_unsaved (snd (last_version db m))"
proof (cases "versions db m = []")
  case True
  with new_version_unsaved_result [OF assms] show ?thesis by (simp add: last_version_empty)
next
  case False
  then have "last (order_by_id (versions db m)) \<in> set (order_by_id (versions db m))"
    by (intro last_in_set) (metis length_0_conv length_sort order_by_id_def)
  then have "last (order_by_id (versions db m)) \<in> set (MotionVersion_objects db)"
    by (auto simp add: order_by_id_def versions_def split: option.splits)
  with False assms show ?thesis by (simp add: last_version_nonempty)
qed

lemma getattr_Motion_unsaved:
  assumes "new_version_unsaved m"
  shows "new_version_unsaved (snd (getattr_Motion db m a))"
  using assms last_version_unsaved_result [OF assms, of db]
  by (cases a)
     (auto simp add: get_title_def get_text_def get_reason_def get_version_def
        split: option.splits prod.splits)

lemma save_new_data_unsaved:
  "new_version_unsaved m \<Longrightarrow> new_version_unsaved (snd (save_new_data db as m))"
proof (induction as arbitrary: m)
  case Nil
  then show ?case by simp
next
  case (Cons a as)
  obtain x m1 where g: "getattr_Motion db m a = (x, m1)" by fastforce
  obtain lv m2 where l: "last_version db m1 = (lv, m2)" by fastforce
  from getattr_Motion_unsaved [OF Cons.prems, of db a] g have "new_version_unsaved m1" by simp
  from last_version_unsaved_result [OF this, of db] l have "new_version_unsaved m2" by simp
  with Cons.IH [of m2] g l show ?case by simp
qed

lemma delattr_priv_unsaved:
  "new_version_unsaved (delattr_priv m a) = new_version_unsaved m"
  by (cases a) (simp_all add: new_version_unsaved_def)

lemma setattr_version_pk: "pk (setattr_version v a x) = pk v"
  by (cases a) simp_all

lemma save_set_attrs_unsaved:
  "new_version_unsaved m \<Longrightarrow>
   pk (fst (save_set_attrs db as m ver)) = pk ver \<and>
   new_version_unsaved (snd (save_set_attrs db as m ver))"
proof (induction as arbitrary: m ver)
  case Nil
  then show ?case by simp
next
  case (Cons a as)
  show ?case
  proof (cases "getattr_priv m a")
    case None
    obtain lv m' where l: "last_version db m = (lv, m')" by fastforce
    from last_version_unsaved_result [OF Cons.prems, of db] l have "new_version_unsaved m'"
      by simp
    from Cons.IH [OF this, of "setattr_version ver a (getattr_version lv a)"] None l
    show ?thesis by (simp add: setattr_version_pk)
  next
    case (Some x)
    from Cons.prems have "new_version_unsaved (delattr_priv m a)"
      by (simp add: delattr_priv_unsaved)
    from Cons.IH [OF this, of "setattr_version ver a x"] Some
    show ?thesis by (simp add: setattr_version_pk)
  qed
qed

lemma save_write_invariants:
  assumes ok: "version_keys_increasing db" and m: "new_version_unsaved m"
    and ver: "pk ver = None \<or> pk ver \<in> pk ` set (MotionVersion_objects db)"
    and res: "save_write db m ver = (r, m', db')"
  shows "version_keys_increasing db' \<and> new_version_unsaved m'"
proof -
  obtain ver' m1 where sa: "save_set_attrs db [Title, Text, Reason] m ver = (ver', m1)"
    by fastforce
  from save_set_attrs_unsaved [OF m, of db "[Title, Text, Reason]" ver] sa
  have pk': "pk ver' = pk ver" and m1: "new_version_unsaved m1" by simp_all
  from ver pk' have "pk ver' = None \<or> pk ver' \<in> pk ` set (MotionVersion_objects db)" by simp
  from MotionVersion_save_keys [OF ok this]
  have "version_keys_increasing (snd (MotionVersion_save ver' db))" .
  with res sa m1 show ?thesis
    by (auto simp add: save_write_def simp del: save_set_attrs.simps split: prod.splits sum.splits)
qed

lemma save_invariants:
  assumes ok: "version_keys_increasing db" and m: "new_version_unsaved m"
    and res: "save registry cfg m db = (r, m', db')"
  shows "version_keys_increasing db' \<and> new_version_unsaved m'"
proof -
  obtain r0 m0 where r0: "(if state_id m = [] then reset_state registry m else (Inr (), m)) = (r0, m0)"
    by fastforce
  have m0: "new_version_unsaved m0"
    using r0 m by (auto simp add: reset_state_def new_version_unsaved_def split: if_splits option.splits)
  show ?thesis
  proof (cases r0)
    case (Inl e)
    with res r0 ok m0 show ?thesis by (simp add: save_def)
  next
    case (Inr u)
    obtain m1 db1 where ms: "Model_save m0 db = (m1, db1)" by fastforce
    have rows: "MotionVersion_objects db1 = MotionVersion_objects db"
      using Model_save_rows [of m0 db] ms by simp
    have ok1: "version_keys_increasing db1"
      using ok version_keys_increasing_cong [OF rows] by simp
    have m1: "new_version_unsaved m1"
      using m0 ms Model_save_motion [of m0 db]
      by (auto simp add: new_version_unsaved_def split: option.splits)
    obtain nd m2 where nd: "save_new_data db1 [Title, Text, Reason] m1 = (nd, m2)" by fastforce
    have m2: "new_version_unsaved m2"
      using save_new_data_unsaved [OF m1, of db1 "[Title, Text, Reason]"] nd by simp
    obtain nv m3 where nv: "new_version m2 = (nv, m3)" by fastforce
    have nv_ok: "pk (nv\<lparr>motion := Motion_id m3\<rparr>) = None"
      "new_version_unsaved (m3\<lparr>priv_new_version := None\<rparr>)"
      using new_version_unsaved_result [OF m2] nv by (simp_all add: new_version_unsaved_def)
    obtain lv m4 where lv: "last_version db1 m2 = (lv, m4)" by fastforce
    have lv_ok: "pk lv = None \<or> pk lv \<in> pk ` set (MotionVersion_objects db1)"
      "new_version_unsaved m4"
      using last_version_unsaved_result [OF m2, of db1] lv by auto
    let ?need = "cfg = ''ALLWASY_CREATE_NEW_VERSION''"
    consider (new) "priv_new_version m2 \<noteq> None \<or> (nd \<and> ?need)"
      | (last) "\<not> (priv_new_version m2 \<noteq> None \<or> (nd \<and> ?need))" "nd \<and> \<not> ?need"
      | (none) "\<not> (priv_new_version m2 \<noteq> None \<or> (nd \<and> ?need))" "\<not> (nd \<and> \<not> ?need)"
      by blast
    then show ?thesis
    proof cases
      case new
      then have "save_write db1 (m3\<lparr>priv_new_version := None\<rparr>) (nv\<lparr>motion := Motion_id m3\<rparr>)
          = (r, m', db')"
        using res r0 Inr ms nd nv
        by (simp add: save_def Let_def del: save_new_data.simps)
      from save_write_invariants [OF ok1 nv_ok(2) _ this] nv_ok(1) show ?thesis by simp
    next
      case last
      then have "save_write db1 m4 lv = (r, m', db')"
        using res r0 Inr ms nd lv
        by (simp add: save_def Let_def del: save_new_data.simps)
      from save_write_invariants [OF ok1 lv_ok(2) lv_ok(1) this] show ?thesis .
    next
      case none
      then have "m' = m2 \<and> db' = db1"
        using res r0 Inr ms nd
        by (simp add: save_def Let_def del: save_new_data.simps)
      with ok1 m2 show ?thesis by simp
    qed
  qed
qed

text \<open>Every version row keeps a motion row to refer to.\<close>

lemma version_motions_exist_empty: "version_motions_exist empty_database"
  by (simp add: version_motions_exist_def empty_database_def)

lemma Model_save_ids:
  "fst ` set (Motion_objects db) \<subseteq> fst ` set (Motion_objects (snd (Model_save m db))) \<and>
   (\<exists>k. Motion_id (fst (Model_save m db)) = Some k \<and>
        k \<in> fst ` set (Motion_objects (snd (Model_save m db))))"
proof (cases "Motion_id m")
  case None
  then show ?thesis by (auto simp add: Model_save_def Let_def)
next
  case (Some k)
  let ?g = "\<lambda>r. if fst r = k then (k, state_id m) else r"
  have "fst (?g r) = fst r" for r :: "nat \<times> string" by simp
  then have "map fst (map ?g (Motion_objects db)) = map fst (Motion_objects db)"
    unfolding map_map comp_def by (intro map_cong) simp_all
  then have img: "fst ` set (map ?g (Motion_objects db)) = fst ` set (Motion_objects db)"
    by (metis list.set_map)
  show ?thesis
  proof (cases "k \<in> fst ` set (Motion_objects db)")
    case True
    with Some
    have "Model_save m db = (m, db\<lparr>Motion_objects := map ?g (Motion_objects db)\<rparr>)"
      by (simp add: Model_save_def)
    then show ?thesis using img True Some by (simp del: set_map)
  next
    case False
    with Some show ?thesis by (auto simp add: Model_save_def)
  qed
qed

lemma new_version_id: "Motion_id (snd (new_version m)) = Motion_id m"
  by (simp add: new_version_def Let_def split: option.splits)

lemma last_version_id: "Motion_id (snd (last_version db m)) = Motion_id m"
  by (simp add: last_version_def new_version_id split: list.splits)

lemma getattr_Motion_id: "Motion_id (snd (getattr_Motion db m a)) = Motion_id m"
  using last_version_id [of db m]
  by (cases a)
     (auto simp add: get_title_def get_text_def get_reason_def get_version_def
        split: option.splits prod.splits)

lemma save_new_data_id: "Motion_id (snd (save_new_data db as m)) = Motion_id m"
proof (induction as arbitrary: m)
  case Nil
  show ?case by simp
next
  case (Cons a as)
  obtain x m1 where g: "getattr_Motion db m a = (x, m1)" by fastforce
  obtain lv m2 where l: "last_version db m1 = (lv, m2)" by fastforce
  from getattr_Motion_id [of db m a] g have "Motion_id m1 = Motion_id m" by simp
  moreover from last_version_id [of db m1] l have "Motion_id m2 = Motion_id m1" by simp
  ultimately show ?case using Cons.IH [of m2] g l by simp
qed

lemma delattr_priv_id: "Motion_id (delattr_priv m a) = Motion_id m"
  by (cases a) simp_all

lemma setattr_version_motion: "motion (setattr_version v a x) = motion v"
  by (cases a) simp_all

lemma save_set_attrs_motion: "motion (fst (save_set_attrs db as m ver)) = motion ver"
proof (induction as arbitrary: m ver)
  case Nil
  show ?case by simp
next
  case (Cons a as)
  show ?case
  proof (cases "getattr_priv m a")
    case None
    obtain lv m' where l: "last_version db m = (lv, m')" by fastforce
    from Cons.IH [of m' "setattr_version ver a (getattr_version lv a)"] None l
    show ?thesis by (simp add: setattr_version_motion)
  next
    case (Some x)
    from Cons.IH [of "delattr_priv m a" "setattr_version ver a x"] Some
    show ?thesis by (simp add: setattr_version_motion)
  qed
qed

lemma MotionVersion_save_motions_exist:
  assumes "version_motions_exist db"
    and "\<exists>k \<in> fst ` set (Motion_objects db). motion v = Some k"
  shows "version_motions_exist (snd (MotionVersion_save v db))"
  using assms
  by (auto simp add: MotionVersion_save_def version_motions_exist_def Let_def
        split: option.splits)

lemma last_version_motion:
  assumes "version_motions_exist db" and "priv_new_version m = None"
    and "Motion_id m = Some k" and "k \<in> fst ` set (Motion_objects db)"
  shows "\<exists>j \<in> fst ` set (Motion_objects db). motion (fst (last_version db m)) = Some j"
proof (cases "versions db m = []")
  case True
  with assms(2,3,4) show ?thesis
    by (simp add: last_version_empty new_version_def Let_def MotionVersion_init_def)
next
  case False
  then have "last (order_by_id (versions db m)) \<in> set (order_by_id (versions db m))"
    by (intro last_in_set) (metis length_0_conv length_sort order_by_id_def)
  then have "last (order_by_id (versions db m)) \<in> set (MotionVersion_objects db)"
    by (auto simp add: order_by_id_def versions_def split: option.splits)
  with False assms(1) show ?thesis
    by (simp add: last_version_nonempty version_motions_exist_def)
qed

lemma save_motions_exist:
  assumes ok: "version_motions_exist db"
    and res: "save registry cfg m db = (r, m', db')"
  shows "version_motions_exist db'"
proof -
  obtain r0 m0 where r0:
    "(if state_id m = [] then reset_state registry m else (Inr (), m)) = (r0, m0)"
    by fastforce
  show ?thesis
  proof (cases r0)
    case (Inl e)
    with res r0 ok show ?thesis by (simp add: save_def)
  next
    case (Inr u)
    obtain m1 db1 where ms: "Model_save m0 db = (m1, db1)" by fastforce
    have rows: "MotionVersion_objects db1 = MotionVersion_objects db"
      using Model_save_rows [of m0 db] ms by simp
    from Model_save_ids [of db m0] ms obtain k
      where sub: "fst ` set (Motion_objects db) \<subseteq> fst ` set (Motion_objects db1)"
        and k: "Motion_id m1 = Some k" "k \<in> fst ` set (Motion_objects db1)"
      by auto
    have ok1: "version_motions_exist db1"
      using ok sub rows unfolding version_motions_exist_def by fastforce
    obtain nd m2 where nd: "save_new_data db1 [Title, Text, Reason] m1 = (nd, m2)" by fastforce
    have k2: "Motion_id m2 = Some k"
      using save_new_data_id [of db1 "[Title, Text, Reason]" m1] nd k(1) by simp
    obtain nv m3 where nv: "new_version m2 = (nv, m3)" by fastforce
    have k3: "Motion_id m3 = Some k" using new_version_id [of m2] nv k2 by simp
    obtain lv m4 where lv: "last_version db1 m2 = (lv, m4)" by fastforce
    have written: "version_motions_exist db'"
      if sw: "save_write db1 mm ver = (r, m', db')"
        and ver: "\<exists>j \<in> fst ` set (Motion_objects db1). motion ver = Some j" for mm ver
    proof -
      obtain ver' mm' where sa: "save_set_attrs db1 [Title, Text, Reason] mm ver = (ver', mm')"
        by fastforce
      have "motion ver' = motion ver"
        using save_set_attrs_motion [of db1 "[Title, Text, Reason]" mm ver] sa by simp
      with ver have "\<exists>j \<in> fst ` set (Motion_objects db1). motion ver' = Some j" by simp
      from MotionVersion_save_motions_exist [OF ok1 this] sw sa show ?thesis
        by (auto simp add: save_write_def simp del: save_set_attrs.simps
            split: prod.splits sum.splits)
    qed
    let ?need = "cfg = ''ALLWASY_CREATE_NEW_VERSION''"
    consider (new) "priv_new_version m2 \<noteq> None \<or> (nd \<and> ?need)"
      | (last) "\<not> (priv_new_version m2 \<noteq> None \<or> (nd \<and> ?need))" "nd \<and> \<not> ?need"
      | (none) "\<not> (priv_new_version m2 \<noteq> None \<or> (nd \<and> ?need))" "\<not> (nd \<and> \<not> ?need)"
      by blast
    then show ?thesis
    proof cases
      case new
      then have "save_write db1 (m3\<lparr>priv_new_version := None\<rparr>) (nv\<lparr>motion := Motion_id m3\<rparr>)
          = (r, m', db')"
        using res r0 Inr ms nd nv
        by (simp add: save_def Let_def del: save_new_data.simps)
      from written [OF this] k3 k(2) show ?thesis by simp
    next
      case last
      then have sw: "save_write db1 m4 lv = (r, m', db')"
        using res r0 Inr ms nd lv
        by (simp add: save_def Let_def del: save_new_data.simps)
      from last(1) have "priv_new_version m2 = None" by simp
      from last_version_motion [OF ok1 this k2 k(2)] lv
      have "\<exists>j \<in> fst ` set (Motion_objects db1). motion lv = Some j" by simp
      from written [OF sw this] show ?thesis .
    next
      case none
      then have "db' = db1"
        using res r0 Inr ms nd
        by (simp add: save_def Let_def del: save_new_data.simps)
      with ok1 show ?thesis by simp
    qed
  qed
qed

subsection \<open>What \<^verbatim>\<open>support\<close> preserves\<close>

text \<open>A person with at most one supporter row of a motion has at most one after any call.\<close>

lemma support_keeps_single:
  assumes "length (filter (\<lambda>r. supporter_person r = q) (supporter db m)) \<le> 1"
    and "support registry p m db = (r, m', db')"
  shows "m' = m \<and> length (filter (\<lambda>r. supporter_person r = q) (supporter db' m')) \<le> 1"
  using assms
  by (auto simp add: support_def MotionSupporter_save_def is_supporter_def supporter_def
        split: option.splits if_splits)

end
